theory Spec2Isabelle
  imports Complex_Main "HOL-Library.Word"
begin

section \<open>Python slices and the numpy operations of the notebook\<close>

text \<open>
  The notebook \<^verbatim>\<open>examples/notebooks/pong.ipynb\<close> preprocesses the Pong screen with numpy
  slices. An array axis is a list; a raw frame is a list of rows, a row a list of pixels,
  a pixel a list of \<^verbatim>\<open>uint8\<close> colour channels.

  \<open>norm_index i n\<close> is the way Python places a slice bound \<open>i\<close> on an axis of length
  \<open>n\<close>: a negative bound counts from the end, and every bound is clipped to \<open>0..n\<close>.
\<close>

type_synonym frame = "8 word list list list"
type_synonym gray = "64 word list list"
type_synonym mask = "bool list list"
type_synonym grid = "real list list"

definition norm_index :: "int \<Rightarrow> nat \<Rightarrow> nat" where
  "norm_index i n = (if i < 0 then nat (i + int n) else min (nat i) n)"

text \<open>Every \<open>k\<close>-th element, starting with the first (the step of a slice; the notebook
  uses the steps 1 and 2 only).\<close>

fun stride :: "nat \<Rightarrow> 'a list \<Rightarrow> 'a list" where
  "stride k [] = []"
| "stride k (x # xs) = x # stride k (drop (k - 1) xs)"

text \<open>\<^verbatim>\<open>xs[start:stop:step]\<close> for a positive step.\<close>

definition slice :: "int \<Rightarrow> int \<Rightarrow> nat \<Rightarrow> 'a list \<Rightarrow> 'a list" where
  "slice start stop step xs =
     (let n = length xs; lo = norm_index start n; hi = norm_index stop n
      in stride step (take (hi - lo) (drop lo xs)))"

text \<open>\<^verbatim>\<open>cropped = np.array(self._state)[34:194, :, :]\<close>: the slice acts on the row axis,
  \<^verbatim>\<open>:\<close> keeps the other two axes whole.\<close>

definition crop :: "frame \<Rightarrow> frame" where
  "crop f = slice 34 194 1 f"

text \<open>\<^verbatim>\<open>reduced = cropped[0:-1:2, 0:-1:2]\<close>: the row axis and the column axis are sliced,
  the channel axis is kept.\<close>

definition reduce :: "frame \<Rightarrow> frame" where
  "reduce c = map (slice 0 (- 1) 2) (slice 0 (- 1) 2 c)"

text \<open>\<^verbatim>\<open>grayscale = np.sum(reduced, axis=2)\<close>: numpy adds \<^verbatim>\<open>uint8\<close> values in the
  platform's unsigned integer (64 bits), so each channel is widened before the sum.\<close>

definition np_sum_axis2 :: "frame \<Rightarrow> gray" where
  "np_sum_axis2 r = map (map (\<lambda>px. sum_list (map ucast px))) r"

text \<open>The shape of a two-dimensional array (of an array with no row the width is not
  recorded in a list of rows; it is taken as 0).\<close>

definition shape2 :: "'a list list \<Rightarrow> nat \<times> nat" where
  "shape2 g = (length g, case g of [] \<Rightarrow> 0 | r # _ \<Rightarrow> length r)"

text \<open>\<^verbatim>\<open>np.zeros(shape)\<close>: a \<^verbatim>\<open>float64\<close> array of zeros. The only values the notebook
  stores in it are 0.0 and 1.0, which are the reals 0 and 1.\<close>

definition np_zeros :: "nat \<times> nat \<Rightarrow> grid" where
  "np_zeros s = replicate (fst s) (replicate (snd s) 0)"

text \<open>\<^verbatim>\<open>grayscale != 233\<close>: the elementwise comparison, a boolean array.\<close>

definition np_not_equal :: "gray \<Rightarrow> 64 word \<Rightarrow> mask" where
  "np_not_equal g c = map (map (\<lambda>v. v \<noteq> c)) g"

text \<open>\<^verbatim>\<open>bw[m] = v\<close>: the cells of \<open>bw\<close> where the mask holds are overwritten with \<open>v\<close>.\<close>

definition mask_assign :: "grid \<Rightarrow> mask \<Rightarrow> real \<Rightarrow> grid" where
  "mask_assign bw m v = map2 (\<lambda>brow mrow. map2 (\<lambda>b t. if t then v else b) brow mrow) bw m"

text \<open>The array that \<^verbatim>\<open>PongEnv.state\<close> returns for the stored raw frame \<open>f\<close>.\<close>

definition black_white :: "frame \<Rightarrow> grid" where
  "black_white f =
     (let cropped = crop f;
          reduced = reduce cropped;
          grayscale = np_sum_axis2 reduced;
          bw = np_zeros (shape2 grayscale)
      in mask_assign bw (np_not_equal grayscale 233) 1)"

text \<open>The array \<^verbatim>\<open>grayscale\<close> that \<^verbatim>\<open>PongEnv.state\<close> computes from the frame \<open>f\<close>,
  before the threshold.\<close>

definition grayscale_of :: "frame \<Rightarrow> gray" where
  "grayscale_of f = np_sum_axis2 (reduce (crop f))"

text \<open>A frame of \<open>h\<close> rows, \<open>w\<close> columns and \<open>c\<close> channels.\<close>

definition has_shape :: "frame \<Rightarrow> nat \<Rightarrow> nat \<Rightarrow> nat \<Rightarrow> bool" where
  "has_shape f h w c =
     (length f = h \<and> (\<forall>row \<in> set f. length row = w \<and> (\<forall>px \<in> set row. length px = c)))"

section \<open>The object store and the environment class\<close>

text \<open>
  Python objects are shared by reference, so the arrays, the simulators and the
  environment instances live in a store: a list of objects, addressed by position.
  Allocation appends, so a new address is never one already in use.
\<close>

type_synonym addr = nat

text \<open>What a call can raise: \<open>Exception m\<close> is an instance of Python's \<^verbatim>\<open>Exception\<close>
  class (or of a subclass of it) whose \<^verbatim>\<open>str()\<close> is \<open>m\<close>; the other three are the
  built-in exceptions that derive from \<^verbatim>\<open>BaseException\<close> directly.\<close>

datatype exn = Exception string | KeyboardInterrupt | SystemExit | GeneratorExit

text \<open>\<^verbatim>\<open>isinstance(x, Exception)\<close>.\<close>

definition is_Exception :: "exn \<Rightarrow> bool" where
  "is_Exception x = (case x of Exception _ \<Rightarrow> True | _ \<Rightarrow> False)"

text \<open>The attributes of a \<^verbatim>\<open>PongEnv\<close> instance: \<^verbatim>\<open>self.env\<close>, \<^verbatim>\<open>self.name\<close>,
  \<^verbatim>\<open>self._state\<close> and \<^verbatim>\<open>self._state_shape\<close>.\<close>

record PongEnv =
  env :: addr
  name :: string
  priv_state :: "addr option"
  priv_state_shape :: "nat list"

datatype obj =
    Gym string
  | EnvObj PongEnv
  | U8Array frame
  | U64Array gray
  | BoolArray mask
  | F64Array grid

type_synonym heap = "obj list"

definition alloc :: "heap \<Rightarrow> obj \<Rightarrow> addr \<times> heap" where
  "alloc h v = (length h, h @ [v])"

definition lookup :: "heap \<Rightarrow> addr \<Rightarrow> obj option" where
  "lookup h a = (if a < length h then Some (h ! a) else None)"

text \<open>The resolution of the simulator's screen: rows, columns, colour channels.\<close>

definition raw_shape :: "nat list" where
  "raw_shape = [210, 160, 3]"

text \<open>Modelled from the spec: the constructor of the library class
  \<^verbatim>\<open>dc.rl.GymEnvironment\<close>, which \<^verbatim>\<open>PongEnv\<close> subclasses and whose code is not in the
  notebook. The spec calls it a library-provided Gym environment wrapper, of which each
  rollout worker gets an independent copy: a fresh instance with no mutable state shared
  with another. So the constructor makes a new simulator of the given name and a new
  instance that refers to it and holds no frame yet; the shape the wrapper declares is
  the one of the simulator's screen. (That the simulator library can fail to make the
  game is not modelled.)\<close>

definition GymEnvironment_init :: "string \<Rightarrow> heap \<Rightarrow> addr \<times> heap" where
  "GymEnvironment_init nm h =
     (case alloc h (Gym nm) of (g, h1) \<Rightarrow>
        alloc h1 (EnvObj \<lparr>env = g, name = nm, priv_state = None, priv_state_shape = raw_shape\<rparr>))"

text \<open>The assignment \<^verbatim>\<open>self._state_shape = s\<close>.\<close>

definition set_state_shape :: "addr \<Rightarrow> nat list \<Rightarrow> heap \<Rightarrow> heap" where
  "set_state_shape self s h =
     (case lookup h self of
        Some (EnvObj e) \<Rightarrow> h[self := EnvObj (e\<lparr>priv_state_shape := s\<rparr>)]
      | _ \<Rightarrow> h)"

text \<open>\<^verbatim>\<open>PongEnv()\<close>: \<^verbatim>\<open>PongEnv.__init__\<close> calls the constructor of the wrapper with
  \<^verbatim>\<open>'Pong-v0'\<close> and then sets \<^verbatim>\<open>self._state_shape = (80, 80)\<close>.\<close>

definition PongEnv_init :: "heap \<Rightarrow> addr \<times> heap" where
  "PongEnv_init h =
     (case GymEnvironment_init ''Pong-v0'' h of (self, h1) \<Rightarrow>
        (self, set_state_shape self [80, 80] h1))"

text \<open>The raw frame that \<^verbatim>\<open>self._state\<close> refers to, if there is one.\<close>

definition stored_frame :: "heap \<Rightarrow> addr \<Rightarrow> frame option" where
  "stored_frame h self =
     (case lookup h self of
        Some (EnvObj e) \<Rightarrow>
          (case priv_state e of
             Some a \<Rightarrow> (case lookup h a of Some (U8Array f) \<Rightarrow> Some f | _ \<Rightarrow> None)
           | None \<Rightarrow> None)
      | _ \<Rightarrow> None)"

text \<open>The declared shape \<^verbatim>\<open>self._state_shape\<close>.\<close>

definition declared_shape :: "heap \<Rightarrow> addr \<Rightarrow> nat list option" where
  "declared_shape h self =
     (case lookup h self of Some (EnvObj e) \<Rightarrow> Some (priv_state_shape e) | _ \<Rightarrow> None)"

text \<open>
  The property \<^verbatim>\<open>PongEnv.state\<close>. \<^verbatim>\<open>np.array(self._state)\<close> copies the stored frame into a
  new array; \<^verbatim>\<open>cropped\<close> and \<^verbatim>\<open>reduced\<close> are views of that copy; \<^verbatim>\<open>np.sum\<close>, the
  comparison and \<^verbatim>\<open>np.zeros\<close> each make a new array; the masked assignment writes into the
  array of zeros, whose address is returned. Without a stored frame (\<^verbatim>\<open>self._state\<close> is
  \<^verbatim>\<open>None\<close>) the three-axis index raises \<^verbatim>\<open>IndexError\<close>.
\<close>

definition PongEnv_state :: "addr \<Rightarrow> heap \<Rightarrow> exn + (addr \<times> heap)" where
  "PongEnv_state self h =
     (case stored_frame h self of
        None \<Rightarrow> Inl (Exception ''IndexError'')
      | Some f \<Rightarrow>
          (case alloc h (U8Array f) of (a0, h0) \<Rightarrow>
             (let cropped = crop f;
                  reduced = reduce cropped;
                  grayscale = np_sum_axis2 reduced
              in case alloc h0 (U64Array grayscale) of (a1, h1) \<Rightarrow>
                   (let zeros = np_zeros (shape2 grayscale)
                    in case alloc h1 (F64Array zeros) of (bw, h2) \<Rightarrow>
                         (let m = np_not_equal grayscale 233
                          in case alloc h2 (BoolArray m) of (a3, h3) \<Rightarrow>
                               Inr (bw, h3[bw := F64Array (mask_assign zeros m 1)]))))))"

text \<open>The grid that a read of \<^verbatim>\<open>env.state\<close> hands to its caller.\<close>

definition grid_at :: "heap \<Rightarrow> addr \<Rightarrow> grid option" where
  "grid_at h b = (case lookup h b of Some (F64Array g) \<Rightarrow> Some g | _ \<Rightarrow> None)"

definition state_value :: "addr \<Rightarrow> heap \<Rightarrow> grid option" where
  "state_value self h =
     (case PongEnv_state self h of Inl _ \<Rightarrow> None | Inr (b, h') \<Rightarrow> grid_at h' b)"

text \<open>\<^verbatim>\<open>PongEnv.__deepcopy__(self, memo)\<close> returns \<^verbatim>\<open>PongEnv()\<close>. The memo of \<^verbatim>\<open>copy.deepcopy\<close>
  maps the objects copied so far to their copies.\<close>

definition PongEnv_deepcopy :: "addr \<Rightarrow> (addr \<rightharpoonup> addr) \<Rightarrow> heap \<Rightarrow> addr \<times> heap" where
  "PongEnv_deepcopy self memo h = PongEnv_init h"

text \<open>The addresses an environment object refers to: its simulator and its frame.\<close>

definition ref_list :: "PongEnv \<Rightarrow> addr list" where
  "ref_list e = env e # (case priv_state e of None \<Rightarrow> [] | Some a \<Rightarrow> [a])"

definition refs :: "PongEnv \<Rightarrow> addr set" where
  "refs e = set (ref_list e)"

text \<open>No environment in the store refers to an address that is not allocated.\<close>

definition refs_allocated :: "heap \<Rightarrow> bool" where
  "refs_allocated h =
     list_all (\<lambda>v. case v of
                      EnvObj e \<Rightarrow> list_all (\<lambda>a. a < length h) (ref_list e)
                    | _ \<Rightarrow> True) h"

text \<open>Modelled from the spec: the method \<^verbatim>\<open>reset\<close> of the library class
  \<^verbatim>\<open>dc.rl.GymEnvironment\<close>, inherited by \<^verbatim>\<open>PongEnv\<close> and not in the notebook. The spec
  lists a reset function next to the current-state accessor; so it stores the first
  screen of a new game, a new array, in \<^verbatim>\<open>self._state\<close>. The simulator is outside the
  model: its screen is the argument \<open>screen\<close>. An address that holds no environment,
  which a reference returned by the constructor never is, leaves the store as it was.\<close>

definition GymEnvironment_reset :: "addr \<Rightarrow> frame \<Rightarrow> heap \<Rightarrow> heap" where
  "GymEnvironment_reset self screen h =
     (case lookup h self of
        Some (EnvObj e) \<Rightarrow>
          (case alloc h (U8Array screen) of (a, h1) \<Rightarrow>
             h1[self := EnvObj (e\<lparr>priv_state := Some a\<rparr>)])
      | _ \<Rightarrow> h)"

text \<open>Modelled from the spec: the method \<^verbatim>\<open>step\<close> of the library class
  \<^verbatim>\<open>dc.rl.GymEnvironment\<close>, inherited by \<^verbatim>\<open>PongEnv\<close> and not in the notebook. The spec
  describes a step function that takes an action and advances the simulation; so it
  stores the screen that the simulator shows after the action (\<open>respond action\<close>), a
  new array, in \<^verbatim>\<open>self._state\<close>.\<close>

definition GymEnvironment_step :: "addr \<Rightarrow> nat \<Rightarrow> (nat \<Rightarrow> frame) \<Rightarrow> heap \<Rightarrow> heap" where
  "GymEnvironment_step self action respond h =
     (case lookup h self of
        Some (EnvObj e) \<Rightarrow>
          (case alloc h (U8Array (respond action)) of (a, h1) \<Rightarrow>
             h1[self := EnvObj (e\<lparr>priv_state := Some a\<rparr>)])
      | _ \<Rightarrow> h)"

text \<open>The operations a program can apply to the environments in the store, and a run of
  a sequence of them. A read that raises leaves the store as it was.\<close>

datatype operation =
    Construct
  | Read addr
  | Deepcopy addr "(addr \<times> addr) list"
  | Reset addr frame
  | Step addr nat frame

fun apply_operation :: "operation \<Rightarrow> heap \<Rightarrow> heap" where
  "apply_operation Construct h = snd (PongEnv_init h)"
| "apply_operation (Read self) h =
     (case PongEnv_state self h of Inl _ \<Rightarrow> h | Inr (b, h') \<Rightarrow> h')"
| "apply_operation (Deepcopy self memo) h = snd (PongEnv_deepcopy self (map_of memo) h)"
| "apply_operation (Reset self screen) h = GymEnvironment_reset self screen h"
| "apply_operation (Step self action screen) h =
     GymEnvironment_step self action (\<lambda>_. screen) h"

fun run :: "operation list \<Rightarrow> heap \<Rightarrow> heap" where
  "run [] h = h"
| "run (x # xs) h = run xs (apply_operation x h)"

section \<open>The preprocessing as the specification describes it\<close>

text \<open>
  The specification describes the observation in four steps: crop the frame to the play
  area (rows 34 through 193), halve the resolution by taking every second row and every
  second column, collapse the colour channels by adding them, and threshold against the
  background constant 233. These definitions follow those words, not the code; the
  channels are added as natural numbers.
\<close>

definition spec_crop :: "frame \<Rightarrow> frame" where
  "spec_crop f = map (\<lambda>i. f ! i) [34..<194]"

definition spec_subsample :: "'a list \<Rightarrow> 'a list" where
  "spec_subsample xs = map (\<lambda>k. xs ! (2 * k)) [0..<length xs div 2]"

definition spec_sum_channels :: "frame \<Rightarrow> nat list list" where
  "spec_sum_channels r = map (map (\<lambda>px. sum_list (map unat px))) r"

definition spec_threshold :: "nat list list \<Rightarrow> grid" where
  "spec_threshold g = map (map (\<lambda>v. if v = 233 then 0 else 1)) g"

definition spec_state :: "frame \<Rightarrow> grid" where
  "spec_state f =
     spec_threshold (spec_sum_channels (map spec_subsample (spec_subsample (spec_crop f))))"

section \<open>The policy network\<close>

text \<open>
  The layer objects of \<^verbatim>\<open>deepchem.models.tensorgraph.layers\<close> as the notebook constructs
  them: each constructor keeps the keyword arguments of the call. \<open>Given s\<close> is the
  state input handed to \<^verbatim>\<open>create_layers\<close>; an activation function that is not given is
  \<open>None\<close>.
\<close>

datatype activation = relu | softmax

datatype 's layer =
    Given 's
  | Conv2D nat "'s layer" nat nat
  | Flatten "'s layer"
  | Dense nat "'s layer" "activation option"
  | GRU nat nat "'s layer"
  | Reshape "int list" "'s layer"
  | Concat "'s layer list"

text \<open>\<^verbatim>\<open>PongPolicy.create_layers(self, state, **kwargs)\<close>; \<open>n_actions\<close> is
  \<^verbatim>\<open>env.n_actions\<close>, read from the global environment. The result is a Python dictionary.\<close>

definition create_layers :: "'s \<Rightarrow> nat \<Rightarrow> (string \<rightharpoonup> 's layer)" where
  "create_layers state n_actions =
     (let conv1 = Conv2D 16 (Given state) 8 4;
          conv2 = Conv2D 32 conv1 4 2;
          dense = Dense 256 (Flatten conv2) (Some relu);
          gru = GRU 16 1 (Reshape [1, - 1, 256] dense);
          concat = Concat [dense, Reshape [- 1, 16] gru];
          action_prob = Dense n_actions concat (Some softmax);
          val = Dense 1 concat None
      in [''action_prob'' \<mapsto> action_prob, ''value'' \<mapsto> val])"

section \<open>Rendering and the playback loop\<close>

text \<open>
  \<^verbatim>\<open>render_env(env)\<close>: \<open>rendered\<close> is the outcome of \<^verbatim>\<open>env.env.render()\<close>, normal or a
  raised exception; \<open>printing\<close> is the outcome of \<^verbatim>\<open>print(e)\<close> in the handler, should it
  be reached; \<open>printed\<close> is what has been written to the standard output so far.
  \<^verbatim>\<open>except Exception as e\<close> matches the instances of \<^verbatim>\<open>Exception\<close>. \<^verbatim>\<open>print(e)\<close> writes
  \<^verbatim>\<open>str(e)\<close>, which is the \<open>m\<close> of \<open>Exception m\<close>; it raises when \<^verbatim>\<open>str(e)\<close> raises or
  when the standard output cannot be written, and nothing in the handler catches that:
  the exception of \<^verbatim>\<open>print\<close> leaves \<^verbatim>\<open>render_env\<close>, whatever its class.
\<close>

definition render_env ::
  "exn + unit \<Rightarrow> exn + unit \<Rightarrow> string list \<Rightarrow> exn + string list" where
  "render_env rendered printing printed =
     (case rendered of
        Inr _ \<Rightarrow> Inr printed
      | Inl (Exception m) \<Rightarrow>
          (case printing of
             Inr _ \<Rightarrow> Inr (printed @ [m])
           | Inl y \<Rightarrow> Inl y)
      | Inl e \<Rightarrow> Inl e)"

text \<open>
  What the notebook cannot decide itself: the successive readings of \<^verbatim>\<open>datetime.now()\<close>
  (in microseconds, the resolution of \<^verbatim>\<open>datetime\<close>), and for each iteration of the loop
  the outcome of the render call, of the \<^verbatim>\<open>print\<close> of the handler, of
  \<^verbatim>\<open>a3c.select_action\<close> for a grid (an action, or an exception of the trainer) and of the
  simulator for an action (its next screen, or an exception, with which \<^verbatim>\<open>env.step\<close>
  ends before it stores anything); \<open>first_screen\<close> is the screen after \<^verbatim>\<open>env.reset()\<close>.
\<close>

record world =
  now :: "nat \<Rightarrow> int"
  rendering :: "nat \<Rightarrow> exn + unit"
  printing :: "nat \<Rightarrow> exn + unit"
  select_action :: "nat \<Rightarrow> grid \<Rightarrow> exn + nat"
  first_screen :: frame
  screen :: "nat \<Rightarrow> nat \<Rightarrow> exn + frame"

text \<open>The clock advances: every reading is later than the one before.\<close>

definition clock_advances :: "world \<Rightarrow> bool" where
  "clock_advances w = (\<forall>k. now w k < now w (Suc k))"

text \<open>The calls of the notebook's top level, in the order in which they are made.\<close>

datatype call =
    PongEnv_call
  | PongPolicy_call
  | A3C_call
  | fit_call nat bool
  | restore_call
  | reset_call
  | render_env_call
  | step_call

record run_state =
  store :: heap
  printed :: "string list"
  calls :: "call list"

text \<open>One iteration of the loop: \<^verbatim>\<open>render_env(env)\<close>, then
  \<^verbatim>\<open>env.step(a3c.select_action(env.state))\<close>, whose argument is evaluated first: the
  read of \<^verbatim>\<open>env.state\<close>, then \<^verbatim>\<open>a3c.select_action\<close>, then \<^verbatim>\<open>env.step\<close>. The loop has no
  handler, so an exception of any of them leaves the iteration. (The read returns the
  address of a float array, so the case of an address without a grid does not occur.)\<close>

definition loop_body :: "world \<Rightarrow> addr \<Rightarrow> nat \<Rightarrow> run_state \<Rightarrow> exn + run_state" where
  "loop_body w e k s =
     (case render_env (rendering w k) (printing w k) (printed s) of
        Inl x \<Rightarrow> Inl x
      | Inr p \<Rightarrow>
          (case PongEnv_state e (store s) of
             Inl x \<Rightarrow> Inl x
           | Inr (b, h1) \<Rightarrow>
               (case grid_at h1 b of
                  None \<Rightarrow> Inl (Exception ''TypeError'')
                | Some g \<Rightarrow>
                    (case select_action w k g of
                       Inl x \<Rightarrow> Inl x
                     | Inr a \<Rightarrow>
                         (case screen w k a of
                            Inl x \<Rightarrow> Inl x
                          | Inr fr \<Rightarrow>
                              Inr \<lparr>store = GymEnvironment_step e a (\<lambda>_. fr) h1,
                                   printed = p,
                                   calls = calls s @ [render_env_call, step_call]\<rparr>)))))"

text \<open>
  \<^verbatim>\<open>while (datetime.now() - start).total_seconds() < 120:\<close> The test before iteration
  \<open>k\<close> takes reading \<open>k + 1\<close> of the clock (reading 0 is \<^verbatim>\<open>start\<close>); 120 seconds are
  120000000 microseconds. The loop returns the number of iterations it has made, or the
  exception that left it; a loop that runs forever has the value \<open>None\<close>.
\<close>

partial_function (option) playback ::
  "world \<Rightarrow> addr \<Rightarrow> int \<Rightarrow> nat \<Rightarrow> run_state \<Rightarrow> (exn + nat \<times> run_state) option" where
  "playback w e start k s =
     (if now w (Suc k) - start < 120000000 then
        (case loop_body w e k s of
           Inl x \<Rightarrow> Some (Inl x)
         | Inr s' \<Rightarrow> playback w e start (Suc k) s')
      else Some (Inr (k, s)))"

text \<open>\<^verbatim>\<open>million = 10e6\<close> and \<^verbatim>\<open>num_rounds = 0\<close>.\<close>

definition million :: nat where
  "million = 10000000"

definition num_rounds :: nat where
  "num_rounds = 0"

text \<open>
  The cells of the notebook from top to bottom: the environment, the policy and the
  trainer are constructed, \<^verbatim>\<open>a3c.fit(1000)\<close> and one \<^verbatim>\<open>a3c.fit(million, restore=True)\<close>
  for each round are called, then \<^verbatim>\<open>a3c.restore()\<close>, \<^verbatim>\<open>env.reset()\<close>,
  \<^verbatim>\<open>start = datetime.now()\<close> and the loop. The trainer belongs to the library; what it
  does to the store is not modelled. The calls before the loop are taken to return: an
  exception of one of them would end the notebook before the loop is reached.
\<close>

definition notebook :: "world \<Rightarrow> (exn + nat \<times> run_state) option" where
  "notebook w =
     (case PongEnv_init [] of (e, h1) \<Rightarrow>
        (let training = [PongEnv_call, PongPolicy_call, A3C_call, fit_call 1000 False]
                        @ map (\<lambda>round. fit_call million True) [0..<num_rounds];
             h2 = GymEnvironment_reset e (first_screen w) h1;
             start = now w 0
         in playback w e start 0
              \<lparr>store = h2, printed = [], calls = training @ [restore_call, reset_call]\<rparr>))"

text \<open>
  What the loop is to do, told without the store. \<open>iteration w k f\<close> is the outcome of
  iteration \<open>k\<close> when the environment holds the frame \<open>f\<close>: the frame it holds afterwards,
  or the exception that left the iteration. \<open>frame_after w n\<close> is the outcome of the
  first \<open>n\<close> iterations after \<^verbatim>\<open>env.reset()\<close>, which stop at the first exception.
  \<open>printed_after w n\<close> are the lines that \<open>n\<close> iterations without an exception write
  to the standard output: one for each caught exception of the render call.
\<close>

definition iteration :: "world \<Rightarrow> nat \<Rightarrow> frame \<Rightarrow> exn + frame" where
  "iteration w k f =
     (case render_env (rendering w k) (printing w k) [] of
        Inl x \<Rightarrow> Inl x
      | Inr _ \<Rightarrow>
          (case select_action w k (black_white f) of
             Inl x \<Rightarrow> Inl x
           | Inr a \<Rightarrow> screen w k a))"

fun frame_after :: "world \<Rightarrow> nat \<Rightarrow> exn + frame" where
  "frame_after w 0 = Inr (first_screen w)"
| "frame_after w (Suc k) =
     (case frame_after w k of Inl x \<Rightarrow> Inl x | Inr f \<Rightarrow> iteration w k f)"

definition caught_message :: "exn + unit \<Rightarrow> string list" where
  "caught_message rendered = (case rendered of Inl (Exception m) \<Rightarrow> [m] | _ \<Rightarrow> [])"

definition printed_after :: "world \<Rightarrow> nat \<Rightarrow> string list" where
  "printed_after w n = concat (map (\<lambda>k. caught_message (rendering w k)) [0..<n])"

section \<open>Concrete frames, stores and worlds\<close>

text \<open>A screen that shows nothing but the background colour of the game, whose channels
  add up to 233.\<close>

definition pong_background :: frame where
  "pong_background = replicate 210 (replicate 160 [144, 72, 17])"

text \<open>The store after \<^verbatim>\<open>env = PongEnv()\<close> and \<^verbatim>\<open>env.reset()\<close> in an empty store, with
  the background screen as the first frame: the simulator is at address 0, the
  environment at address 1 and the frame at address 2.\<close>

definition demo_store :: heap where
  "demo_store = GymEnvironment_reset 1 pong_background (snd (PongEnv_init []))"

text \<open>A screen with one white pixel of the ball in row 44 and column 14, and the store
  after a step of the environment of \<open>demo_store\<close> that shows it.\<close>

definition ball_frame :: frame where
  "ball_frame =
     pong_background[44 := (replicate 160 [144, 72, 17])[14 := [236, 236, 236]]]"

definition ball_store :: heap where
  "ball_store = GymEnvironment_step 1 0 (\<lambda>a. ball_frame) demo_store"

text \<open>
  Worlds for the playback. In \<open>demo_world\<close> the clock advances by one minute from
  reading to reading, every call succeeds, the trainer selects action 0 and the
  simulator shows the ball. In \<open>no_display_world\<close> the render call raises an exception
  for a missing display, which is printed. In \<open>interrupted_world\<close> the clock advances by
  one second from reading to reading and the render call is interrupted from the
  keyboard. In \<open>unprintable_world\<close> the render call raises an exception for a missing
  display whose \<^verbatim>\<open>print\<close> raises in turn. In \<open>crashing_world\<close> the simulator raises in
  \<^verbatim>\<open>env.step\<close>.
\<close>

definition demo_world :: world where
  "demo_world =
     \<lparr>now = (\<lambda>k. 60000000 * int k),
      rendering = (\<lambda>k. Inr ()),
      printing = (\<lambda>k. Inr ()),
      select_action = (\<lambda>k g. Inr 0),
      first_screen = pong_background,
      screen = (\<lambda>k a. Inr ball_frame)\<rparr>"

definition no_display_world :: world where
  "no_display_world = demo_world\<lparr>rendering := (\<lambda>k. Inl (Exception ''no display''))\<rparr>"

definition interrupted_world :: world where
  "interrupted_world =
     demo_world\<lparr>now := (\<lambda>k. 1000000 * int k),
                rendering := (\<lambda>k. Inl KeyboardInterrupt)\<rparr>"

definition unprintable_world :: world where
  "unprintable_world =
     demo_world\<lparr>rendering := (\<lambda>k. Inl (Exception ''no display'')),
                printing := (\<lambda>k. Inl (Exception ''TypeError''))\<rparr>"


section \<open>Slices, sums and the thresholded grid\<close>

text \<open>The slices agree with Python on small lists.\<close>

lemma slice_examples:
  "slice 0 (- 1) 2 [0, 1, 2, 3, 4, 5, 6 :: nat] = [0, 2, 4]"
  "slice 0 (- 1) 2 [0, 1, 2, 3, 4, 5 :: nat] = [0, 2, 4]"
  "slice 34 194 1 [0, 1, 2 :: nat] = []"
  "slice 1 3 1 [0, 1, 2, 3, 4 :: nat] = [1, 2]"
  by (simp_all add: slice_def norm_index_def)

lemma stride1: "stride (Suc 0) xs = xs"
  by (induction xs) simp_all

lemma stride2_length: "length (stride 2 xs) = (length xs + 1) div 2"
  by (induction xs rule: induct_list012) simp_all

lemma stride2_nth: "2 * i < length xs \<Longrightarrow> stride 2 xs ! i = xs ! (2 * i)"
proof (induction xs arbitrary: i rule: induct_list012)
  case (3 x y zs)
  then show ?case by (cases i) simp_all
qed simp_all

lemma slice_half: "slice 0 (- 1) 2 xs = stride 2 (butlast xs)"
  by (simp add: slice_def norm_index_def butlast_conv_take nat_diff_distrib')

lemma slice_half_length: "length (slice 0 (- 1) 2 xs) = length xs div 2"
  by (simp add: slice_half stride2_length) 

lemma slice_half_nth:
  assumes "i < length xs div 2"
  shows "slice 0 (- 1) 2 xs ! i = xs ! (2 * i)"
proof -
  from assms have "2 * i < length (butlast xs)" by simp
  then have "stride 2 (butlast xs) ! i = butlast xs ! (2 * i)"
    by (rule stride2_nth)
  also have "\<dots> = xs ! (2 * i)"
    using assms by (simp add: nth_butlast)
  finally show ?thesis by (simp add: slice_half)
qed

lemma crop_rows: "length f = 210 \<Longrightarrow> crop f = take 160 (drop 34 f)"
  by (simp add: crop_def slice_def norm_index_def stride1)

lemma crop_length: "length f = 210 \<Longrightarrow> length (crop f) = 160"
  by (simp add: crop_rows)

lemma crop_nth: "length f = 210 \<Longrightarrow> i < 160 \<Longrightarrow> crop f ! i = f ! (34 + i)"
  by (simp add: crop_rows)

lemma reduce_length: "length (reduce c) = length c div 2"
  by (simp add: reduce_def slice_half_length)

lemma reduce_row:
  "i < length c div 2 \<Longrightarrow> reduce c ! i = slice 0 (- 1) 2 (c ! (2 * i))"
  by (simp add: reduce_def slice_half_length slice_half_nth)

lemma reduced_row:
  assumes "has_shape f 210 160 3" and "i < 80"
  shows "reduce (crop f) ! i = slice 0 (- 1) 2 (f ! (34 + 2 * i))"
proof -
  from assms have len: "length f = 210" by (simp add: has_shape_def)
  have "reduce (crop f) ! i = slice 0 (- 1) 2 (crop f ! (2 * i))"
    using assms(2) len by (simp add: reduce_row crop_length)
  also have "crop f ! (2 * i) = f ! (34 + 2 * i)"
    using assms(2) len by (simp add: crop_nth)
  finally show ?thesis .
qed

lemma frame_row_length:
  "has_shape f 210 160 3 \<Longrightarrow> k < 210 \<Longrightarrow> length (f ! k) = 160"
  by (simp add: has_shape_def)

lemma frame_pixel_length:
  assumes sh: "has_shape f 210 160 3" and k: "k < 210" and l: "l < 160"
  shows "length (f ! k ! l) = 3"
proof -
  from sh k have row: "f ! k \<in> set f" by (simp add: has_shape_def)
  with sh have "length (f ! k) = 160" and px: "\<forall>px \<in> set (f ! k). length px = 3"
    by (simp_all add: has_shape_def)
  with l have "f ! k ! l \<in> set (f ! k)" by simp
  with px show ?thesis by blast
qed

lemma reduced_length: "has_shape f 210 160 3 \<Longrightarrow> length (reduce (crop f)) = 80"
  by (simp add: reduce_length crop_length has_shape_def)

lemma reduced_row_length:
  "has_shape f 210 160 3 \<Longrightarrow> i < 80 \<Longrightarrow> length (reduce (crop f) ! i) = 80"
  by (simp add: reduced_row slice_half_length frame_row_length)

lemma reduced_pixel:
  "has_shape f 210 160 3 \<Longrightarrow> i < 80 \<Longrightarrow> j < 80 \<Longrightarrow>
     reduce (crop f) ! i ! j = f ! (34 + 2 * i) ! (2 * j)"
  by (simp add: reduced_row slice_half_nth frame_row_length)

lemma map2_replicate_map:
  "length ys = n \<Longrightarrow> map2 g (replicate n x) (map h ys) = map (\<lambda>y. g x (h y)) ys"
  by (rule nth_equalityI) simp_all

lemma threshold_rows:
  assumes "\<forall>r \<in> set g. length r = w"
  shows "mask_assign (np_zeros (shape2 g)) (np_not_equal g c) 1 =
         map (map (\<lambda>v. if v \<noteq> c then 1 else 0)) g"
proof (cases g)
  case Nil
  then show ?thesis by (simp add: mask_assign_def np_zeros_def np_not_equal_def shape2_def)
next
  case (Cons r rs)
  with assms have sh: "shape2 g = (length g, w)" by (simp add: shape2_def)
  have "mask_assign (np_zeros (shape2 g)) (np_not_equal g c) 1 =
        map (\<lambda>row. map2 (\<lambda>b t. if t then 1 else b) (replicate w 0) (map (\<lambda>v. v \<noteq> c) row)) g"
    unfolding mask_assign_def np_zeros_def np_not_equal_def sh fst_conv snd_conv
    by (rule map2_replicate_map) simp
  also have "\<dots> = map (map (\<lambda>v. if v \<noteq> c then 1 else 0)) g"
    using assms by (intro map_cong refl) (simp add: map2_replicate_map)
  finally show ?thesis .
qed

lemma reduced_rows_all:
  assumes "has_shape f 210 160 3"
  shows "\<forall>r \<in> set (reduce (crop f)). length r = 80"
proof
  fix r assume "r \<in> set (reduce (crop f))"
  then obtain i where "i < length (reduce (crop f))" and "r = reduce (crop f) ! i"
    by (auto simp: in_set_conv_nth)
  with assms show "length r = 80"
    by (simp add: reduced_length reduced_row_length)
qed

lemma black_white_eq:
  assumes "has_shape f 210 160 3"
  shows "black_white f =
         map (map (\<lambda>px. if sum_list (map ucast px) \<noteq> (233 :: 64 word) then 1 else 0))
             (reduce (crop f))"
proof -
  have "\<forall>r \<in> set (np_sum_axis2 (reduce (crop f))). length r = 80"
    using reduced_rows_all[OF assms] by (simp add: np_sum_axis2_def)
  then have "black_white f =
      map (map (\<lambda>v. if v \<noteq> 233 then 1 else 0)) (np_sum_axis2 (reduce (crop f)))"
    unfolding black_white_def Let_def by (rule threshold_rows)
  then show ?thesis by (simp add: np_sum_axis2_def comp_def)
qed

lemma black_white_length: "has_shape f 210 160 3 \<Longrightarrow> length (black_white f) = 80"
  by (simp add: black_white_eq reduced_length)

lemma black_white_row_length:
  "has_shape f 210 160 3 \<Longrightarrow> r \<in> set (black_white f) \<Longrightarrow> length r = 80"
  using reduced_rows_all[of f] by (auto simp: black_white_eq)

lemma black_white_cell:
  assumes "has_shape f 210 160 3" and "i < 80" and "j < 80"
  shows "black_white f ! i ! j =
         (if sum_list (map ucast (f ! (34 + 2 * i) ! (2 * j))) \<noteq> (233 :: 64 word) then 1 else 0)"
  using assms
  by (simp add: black_white_eq reduced_length reduced_row_length reduced_pixel)

section \<open>The store: reads, construction and the declared shape\<close>

lemma state_read:
  assumes "stored_frame h self = Some f"
  shows "PongEnv_state self h =
         Inr (length h + 2,
              h @ [U8Array f, U64Array (np_sum_axis2 (reduce (crop f))),
                   F64Array (black_white f),
                   BoolArray (np_not_equal (np_sum_axis2 (reduce (crop f))) 233)])"
  using assms
  by (simp add: PongEnv_state_def alloc_def black_white_def Let_def list_update_append)

lemma state_read_fails:
  "stored_frame h self = None \<Longrightarrow> PongEnv_state self h = Inl (Exception ''IndexError'')"
  by (simp add: PongEnv_state_def)

lemma state_value_eq:
  "stored_frame h self = Some f \<Longrightarrow> state_value self h = Some (black_white f)"
  by (simp add: state_value_def state_read grid_at_def lookup_def nth_append)

lemma lookup_append_old: "a < length h \<Longrightarrow> lookup (h @ xs) a = lookup h a"
  by (simp add: lookup_def nth_append)

lemma lookup_Some_less: "lookup h a = Some v \<Longrightarrow> a < length h"
  by (simp add: lookup_def split: if_splits)

lemma PongEnv_init_eq:
  "PongEnv_init h =
     (Suc (length h),
      h @ [Gym ''Pong-v0'',
           EnvObj \<lparr>env = length h, name = ''Pong-v0'', priv_state = None,
                   priv_state_shape = [80, 80]\<rparr>])"
  by (simp add: PongEnv_init_def GymEnvironment_init_def alloc_def set_state_shape_def
      lookup_def nth_append list_update_append)

lemma declared_shape_less: "declared_shape h a = Some s \<Longrightarrow> a < length h"
  by (auto simp: declared_shape_def dest: lookup_Some_less split: option.splits obj.splits)

lemma declared_shape_append:
  "declared_shape h a = Some s \<Longrightarrow> declared_shape (h @ xs) a = Some s"
  by (frule declared_shape_less) (simp add: declared_shape_def lookup_append_old)

lemma declared_shape_store_frame:
  assumes "declared_shape h a = Some s" and "lookup h self = Some (EnvObj e)"
  shows "declared_shape ((h @ [v])[self := EnvObj (e\<lparr>priv_state := p\<rparr>)]) a = Some s"
proof -
  from assms(1) have a: "a < length h" by (rule declared_shape_less)
  from assms(2) have s: "self < length h" by (rule lookup_Some_less)
  show ?thesis
  proof (cases "a = self")
    case True
    with assms s show ?thesis
      by (simp add: declared_shape_def lookup_def)
  next
    case False
    with assms a show ?thesis
      by (simp add: declared_shape_def lookup_def nth_append)
  qed
qed

lemma declared_shape_reset:
  "declared_shape h a = Some s \<Longrightarrow> declared_shape (GymEnvironment_reset self fr h) a = Some s"
  by (simp add: GymEnvironment_reset_def alloc_def declared_shape_store_frame
      split: option.splits obj.splits)

lemma declared_shape_step:
  "declared_shape h a = Some s \<Longrightarrow>
   declared_shape (GymEnvironment_step self act respond h) a = Some s"
  by (simp add: GymEnvironment_step_def alloc_def declared_shape_store_frame
      split: option.splits obj.splits)

lemma declared_shape_read:
  assumes "declared_shape h a = Some s"
  shows "declared_shape (apply_operation (Read self) h) a = Some s"
proof (cases "stored_frame h self")
  case None
  with assms show ?thesis by (simp add: state_read_fails)
next
  case (Some f)
  with assms show ?thesis by (simp add: state_read declared_shape_append)
qed

lemma declared_shape_operation:
  "declared_shape h a = Some s \<Longrightarrow> declared_shape (apply_operation x h) a = Some s"
proof (cases x)
  case (Read self)
  assume "declared_shape h a = Some s"
  with Read show ?thesis by (simp only: declared_shape_read)
qed (simp_all add: PongEnv_init_eq PongEnv_deepcopy_def declared_shape_append
      declared_shape_reset declared_shape_step)

lemma declared_shape_run:
  "declared_shape h a = Some s \<Longrightarrow> declared_shape (run ops h) a = Some s"
  by (induction ops arbitrary: h) (simp_all add: declared_shape_operation)

lemma declared_shape_init:
  "PongEnv_init h0 = (e, h1) \<Longrightarrow> declared_shape h1 e = Some [80, 80]"
  by (auto simp: PongEnv_init_eq declared_shape_def lookup_def nth_append)

lemma background_shape: "has_shape pong_background 210 160 3"
  by (simp add: has_shape_def pong_background_def)

lemma stored_after_reset:
  "lookup h self = Some (EnvObj e) \<Longrightarrow>
   stored_frame (GymEnvironment_reset self fr h) self = Some fr"
  by (frule lookup_Some_less)
     (simp add: GymEnvironment_reset_def alloc_def stored_frame_def lookup_def nth_append)

lemma stored_after_step:
  "lookup h self = Some (EnvObj e) \<Longrightarrow>
   stored_frame (GymEnvironment_step self a respond h) self = Some (respond a)"
  by (frule lookup_Some_less)
     (simp add: GymEnvironment_step_def alloc_def stored_frame_def lookup_def nth_append)

lemma demo_store_frame: "stored_frame demo_store 1 = Some pong_background"
  by (simp add: demo_store_def stored_after_reset PongEnv_init_eq lookup_def)

lemma demo_store_env:
  "lookup demo_store 1 =
     Some (EnvObj \<lparr>env = 0, name = ''Pong-v0'', priv_state = Some 2, priv_state_shape = [80, 80]\<rparr>)"
  by (simp add: demo_store_def GymEnvironment_reset_def PongEnv_init_eq lookup_def alloc_def)

lemma demo_store_length: "length demo_store = 3"
  by (simp add: demo_store_def GymEnvironment_reset_def PongEnv_init_eq lookup_def alloc_def)

text \<open>
  Claim C1. For every raw frame of 210 rows, 160 columns and 3 channels that
  \<^verbatim>\<open>_state\<close> holds, \<^verbatim>\<open>PongEnv.state\<close> returns a grid of exactly 80 rows of 80 cells; and
  from the construction of an instance on, whatever operations are applied to the store
  (constructions, reads, copies, resets, steps, of this or of other instances), its
  \<^verbatim>\<open>_state_shape\<close> is \<^verbatim>\<open>(80, 80)\<close>.
\<close>

theorem state_shape_fixed:
  "(stored_frame h self = Some f \<and> has_shape f 210 160 3 \<longrightarrow>
      (\<exists>g. state_value self h = Some g \<and> shape2 g = (80, 80) \<and> length g = 80 \<and>
           (\<forall>r \<in> set g. length r = 80)))
   \<and> (PongEnv_init h0 = (e, h1) \<longrightarrow> declared_shape (run ops h1) e = Some [80, 80])"
proof (intro conjI impI)
  assume a: "stored_frame h self = Some f \<and> has_shape f 210 160 3"
  then have sh: "has_shape f 210 160 3" ..
  have len: "length (black_white f) = 80"
    using sh by (rule black_white_length)
  have rows: "\<forall>r \<in> set (black_white f). length r = 80"
    using sh by (blast intro: black_white_row_length)
  from len obtain r rs where c: "black_white f = r # rs"
    by (cases "black_white f") simp_all
  with rows have "length r = 80" by simp
  with c len have "shape2 (black_white f) = (80, 80)"
    by (simp add: shape2_def)
  with a len rows show "\<exists>g. state_value self h = Some g \<and> shape2 g = (80, 80) \<and>
      length g = 80 \<and> (\<forall>r \<in> set g. length r = 80)"
    by (simp add: state_value_eq)
next
  assume "PongEnv_init h0 = (e, h1)"
  then have "declared_shape h1 e = Some [80, 80]" by (rule declared_shape_init)
  then show "declared_shape (run ops h1) e = Some [80, 80]" by (rule declared_shape_run)
qed


theorem state_shape_fixed_witness:
  "(\<exists>g. state_value 1 demo_store = Some g
        \<and> shape2 g = (80, 80) \<and> length g = 80 \<and> (\<forall>r \<in> set g. length r = 80))
   \<and> declared_shape (run [Reset 1 pong_background, Read 1] (snd (PongEnv_init []))) 1
       = Some [80, 80]"
proof -
  have a: "stored_frame demo_store 1 = Some pong_background \<and> has_shape pong_background 210 160 3"
    using demo_store_frame background_shape by (rule conjI)
  have b: "PongEnv_init [] = (1, snd (PongEnv_init []))"
    by (simp add: PongEnv_init_eq)
  from a b show ?thesis
    using state_shape_fixed[of demo_store 1 pong_background "[]" 1 "snd (PongEnv_init [])"
        "[Reset 1 pong_background, Read 1]"]
    by blast
qed

section \<open>Cells of the grid and the steps of the preprocessing\<close>

lemma u8_bound: "unat (r::8 word) < 256"
  using unsigned_less[of r, where 'a=nat] by simp

lemma unat_ucast_u8: "unat (ucast (r::8 word) :: 64 word) = unat r"
  by (simp add: unsigned_ucast_eq take_bit_nat_eq_self_iff order_less_trans[OF u8_bound])

lemma unat_sum3:
  "unat (ucast (r::8 word) + ucast (g::8 word) + ucast (b::8 word) :: 64 word) =
   unat r + unat g + unat b"
proof -
  have "unat r + unat g + unat b < 2 ^ 64"
    using u8_bound[of r] u8_bound[of g] u8_bound[of b] by simp
  then show ?thesis
    by (simp add: unat_word_ariths unat_ucast_u8)
qed

lemma length3: "length px = 3 \<Longrightarrow> \<exists>a b c. px = [a, b, c]"
  by (auto simp: numeral_3_eq_3 length_Suc_conv)

lemma pixel_sum:
  fixes px :: "8 word list"
  assumes "length px = 3"
  shows "unat (sum_list (map ucast px) :: 64 word) = unat (px ! 0) + unat (px ! 1) + unat (px ! 2)"
proof -
  from assms obtain a b c where px: "px = [a, b, c]"
    by (blast dest: length3)
  show ?thesis
    using unat_sum3[of a b c] by (simp add: px add.assoc)
qed

lemma pixel_sum_nat:
  fixes px :: "8 word list"
  assumes "length px = 3"
  shows "unat (sum_list (map ucast px) :: 64 word) = sum_list (map unat px)"
proof -
  from assms obtain a b c where px: "px = [a, b, c]"
    by (blast dest: length3)
  show ?thesis
    using unat_sum3[of a b c] by (simp add: px add.assoc)
qed

lemma word_233: "(v :: 64 word) = 233 \<longleftrightarrow> unat v = 233"
proof
  assume "unat v = 233"
  then have "unat v = unat (233 :: 64 word)" by simp
  then show "v = 233" by (simp only: word_unat_eq_iff)
qed simp


lemma grayscale_cell:
  assumes "has_shape f 210 160 3" and "i < 80" and "j < 80"
  shows "grayscale_of f ! i ! j = sum_list (map ucast (f ! (34 + 2 * i) ! (2 * j)))"
  using assms
  by (simp add: grayscale_of_def np_sum_axis2_def reduced_length reduced_row_length reduced_pixel)

text \<open>
  Claim C2. For every stored raw frame of 210 rows, 160 columns and 3 channels, every cell
  of the grid that \<^verbatim>\<open>PongEnv.state\<close> returns is 0 or 1, and a cell is 1 exactly when the
  grayscale value at its place differs from 233; that value is the sum of the three
  colour channels of the pixel in row \<open>34 + 2 i\<close> and column \<open>2 j\<close> of the frame (the
  pixel that cropping and subsampling leave at place \<open>(i, j)\<close>), without wrap-around.
\<close>

theorem state_cells_binary:
  assumes "stored_frame h self = Some f" and "has_shape f 210 160 3"
  shows "\<exists>g. state_value self h = Some g \<and> length g = 80 \<and>
           (\<forall>r \<in> set g. length r = 80) \<and>
           (\<forall>i<80. \<forall>j<80.
              (g ! i ! j = 0 \<or> g ! i ! j = 1) \<and>
              (g ! i ! j = 1 \<longleftrightarrow> grayscale_of f ! i ! j \<noteq> 233) \<and>
              unat (grayscale_of f ! i ! j) =
                unat (f ! (34 + 2 * i) ! (2 * j) ! 0) + unat (f ! (34 + 2 * i) ! (2 * j) ! 1)
                + unat (f ! (34 + 2 * i) ! (2 * j) ! 2))"
proof (intro exI conjI allI impI)
  show "state_value self h = Some (black_white f)"
    using assms(1) by (rule state_value_eq)
  show "length (black_white f) = 80"
    using assms(2) by (rule black_white_length)
  show "\<forall>r \<in> set (black_white f). length r = 80"
    using assms(2) by (blast intro: black_white_row_length)
next
  fix i j :: nat
  assume i: "i < 80" and j: "j < 80"
  have cell: "black_white f ! i ! j = (if grayscale_of f ! i ! j \<noteq> 233 then 1 else 0)"
    using assms(2) i j by (simp add: black_white_cell grayscale_cell)
  show "black_white f ! i ! j = 0 \<or> black_white f ! i ! j = 1"
    by (simp add: cell)
  show "black_white f ! i ! j = 1 \<longleftrightarrow> grayscale_of f ! i ! j \<noteq> 233"
    by (simp add: cell)
  have "length (f ! (34 + 2 * i) ! (2 * j)) = 3"
    using assms(2) i j by (simp add: frame_pixel_length)
  then show "unat (grayscale_of f ! i ! j) =
      unat (f ! (34 + 2 * i) ! (2 * j) ! 0) + unat (f ! (34 + 2 * i) ! (2 * j) ! 1)
      + unat (f ! (34 + 2 * i) ! (2 * j) ! 2)"
    using assms(2) i j by (simp add: grayscale_cell pixel_sum)
qed


lemma spec_subsample_slice: "spec_subsample xs = slice 0 (- 1) 2 xs"
  by (rule nth_equalityI) (simp_all add: spec_subsample_def slice_half_length slice_half_nth)

lemma spec_subsample_fun: "spec_subsample = slice 0 (- 1) 2"
  by (rule ext) (rule spec_subsample_slice)

lemma spec_crop_rows:
  assumes "length f = 210"
  shows "spec_crop f = crop f"
proof -
  have "map (\<lambda>i. f ! i) [34..<194] = take 160 (drop 34 f)"
  proof (rule nth_equalityI)
    show "length (map (\<lambda>i. f ! i) [34..<194]) = length (take 160 (drop 34 f))"
      using assms by (simp del: upt_rec_numeral)
  next
    fix i assume "i < length (map (\<lambda>i. f ! i) [34..<194])"
    then have "i < 160" by (simp del: upt_rec_numeral)
    then show "map (\<lambda>i. f ! i) [34..<194] ! i = take 160 (drop 34 f) ! i"
      using assms by (simp del: upt_rec_numeral)
  qed
  then show ?thesis
    using assms unfolding spec_crop_def by (simp only: crop_rows)
qed

lemma spec_reduce: "map spec_subsample (spec_subsample c) = reduce c"
  by (simp add: reduce_def spec_subsample_fun)

lemma reduced_pixels_all:
  assumes "has_shape f 210 160 3" and "row \<in> set (reduce (crop f))" and "px \<in> set row"
  shows "length px = 3"
proof -
  from assms(2) obtain i where i: "i < 80" and row: "row = reduce (crop f) ! i"
    by (auto simp: in_set_conv_nth reduced_length[OF assms(1)])
  from assms(3) row obtain j where j: "j < 80" and px: "px = reduce (crop f) ! i ! j"
    by (auto simp: in_set_conv_nth reduced_row_length[OF assms(1) i])
  from px have "px = f ! (34 + 2 * i) ! (2 * j)"
    by (simp add: reduced_pixel[OF assms(1) i j])
  then show ?thesis
    using i j by (simp add: frame_pixel_length[OF assms(1)])
qed

lemma threshold_pixel:
  fixes px :: "8 word list"
  assumes "length px = 3"
  shows "(if sum_list (map ucast px) \<noteq> (233 :: 64 word) then 1 else 0 :: real) =
         (if sum_list (map unat px) = 233 then 0 else 1)"
  using pixel_sum_nat[OF assms] by (simp add: word_233)

lemma black_white_spec:
  assumes "has_shape f 210 160 3"
  shows "black_white f = spec_state f"
proof -
  from assms have len: "length f = 210" by (simp add: has_shape_def)
  have "spec_state f =
        map (map (\<lambda>px. if sum_list (map unat px) = 233 then 0 else 1)) (reduce (crop f))"
    by (simp add: spec_state_def spec_threshold_def spec_sum_channels_def spec_reduce
        spec_crop_rows[OF len] comp_def)
  also have "\<dots> =
        map (map (\<lambda>px. if sum_list (map ucast px) \<noteq> (233 :: 64 word) then 1 else 0))
          (reduce (crop f))"
    by (intro map_cong refl) (simp only: threshold_pixel[OF reduced_pixels_all[OF assms]])
  finally show ?thesis
    by (simp only: black_white_eq[OF assms])
qed

lemma grayscale_spec:
  assumes "has_shape f 210 160 3"
  shows "map (map unat) (grayscale_of f) =
         spec_sum_channels (map spec_subsample (spec_subsample (spec_crop f)))"
proof -
  from assms have len: "length f = 210" by (simp add: has_shape_def)
  have "map (map unat) (grayscale_of f) =
        map (map (\<lambda>px. unat (sum_list (map ucast px) :: 64 word))) (reduce (crop f))"
    by (simp add: grayscale_of_def np_sum_axis2_def comp_def)
  also have "\<dots> = map (map (\<lambda>px. sum_list (map unat px))) (reduce (crop f))"
    by (intro map_cong refl) (simp only: pixel_sum_nat[OF reduced_pixels_all[OF assms]])
  finally show ?thesis
    by (simp add: spec_sum_channels_def spec_reduce spec_crop_rows[OF len])
qed

text \<open>
  Claim C3. For every stored raw frame of 210 rows, 160 columns and 3 channels, the grid
  that \<^verbatim>\<open>PongEnv.state\<close> returns is the composition of the four steps of the
  specification, in their order, and each intermediate array of the code is the result
  of the corresponding step: the crop keeps rows 34 through 193, the slice
  \<^verbatim>\<open>0:-1:2\<close> keeps every second row and every second column and halves both
  lengths, the sum collapses the channels, and the threshold compares with 233.
\<close>

theorem state_is_crop_subsample_sum_threshold:
  assumes "stored_frame h self = Some f" and "has_shape f 210 160 3"
  shows "state_value self h = Some (spec_state f)
         \<and> crop f = spec_crop f
         \<and> reduce (crop f) = map spec_subsample (spec_subsample (spec_crop f))
         \<and> length (reduce (crop f)) = 160 div 2
         \<and> (\<forall>row \<in> set (reduce (crop f)). length row = 160 div 2)
         \<and> map (map unat) (grayscale_of f) =
             spec_sum_channels (map spec_subsample (spec_subsample (spec_crop f)))
         \<and> black_white f = spec_threshold (map (map unat) (grayscale_of f))"
proof -
  from assms(2) have len: "length f = 210" by (simp add: has_shape_def)
  have 1: "state_value self h = Some (spec_state f)"
    using assms by (simp add: state_value_eq black_white_spec)
  have 2: "crop f = spec_crop f"
    using len by (simp add: spec_crop_rows)
  have 3: "reduce (crop f) = map spec_subsample (spec_subsample (spec_crop f))"
    by (simp add: spec_reduce 2)
  have 4: "length (reduce (crop f)) = 160 div 2"
    using assms(2) by (simp add: reduced_length)
  have 5: "\<forall>row \<in> set (reduce (crop f)). length row = 160 div 2"
    using reduced_rows_all[OF assms(2)] by simp
  have 6: "map (map unat) (grayscale_of f) =
             spec_sum_channels (map spec_subsample (spec_subsample (spec_crop f)))"
    using assms(2) by (rule grayscale_spec)
  have 7: "black_white f = spec_threshold (map (map unat) (grayscale_of f))"
    by (simp only: black_white_spec[OF assms(2)] spec_state_def 6)
  from 1 2 3 4 5 6 7 show ?thesis by blast
qed

lemma ball_frame_shape: "has_shape ball_frame 210 160 3"
proof -
  have len: "length ball_frame = 210"
    by (simp add: ball_frame_def pong_background_def)
  have rows: "length row = 160 \<and> (\<forall>px \<in> set row. length px = 3)"
    if "row \<in> set ball_frame" for row
  proof -
    from that have "row \<in> insert ((replicate 160 [144, 72, 17])[14 := [236, 236, 236]])
                              (set pong_background)"
      unfolding ball_frame_def by (rule set_update_subset_insert[THEN subsetD])
    then show ?thesis
    proof
      assume r: "row = (replicate 160 [144, 72, 17])[14 := [236, 236, 236 :: 8 word]]"
      have "set row \<subseteq> insert [236, 236, 236] (set (replicate 160 [144, 72, 17]))"
        unfolding r by (rule set_update_subset_insert)
      then show ?thesis by (auto simp: r)
    next
      assume "row \<in> set pong_background"
      then show ?thesis by (simp add: pong_background_def)
    qed
  qed
  from len rows show ?thesis by (simp add: has_shape_def)
qed

lemma ball_store_frame: "stored_frame ball_store 1 = Some ball_frame"
  unfolding ball_store_def by (rule stored_after_step[OF demo_store_env])

lemma ball_pixel: "ball_frame ! 44 ! 14 = [236, 236, 236]"
  by (simp add: ball_frame_def pong_background_def)

lemma background_pixel: "ball_frame ! 34 ! 0 = [144, 72, 17]"
  by (simp add: ball_frame_def pong_background_def)

theorem state_cells_binary_witness:
  "\<exists>g. state_value 1 ball_store = Some g \<and> g ! 5 ! 7 = 1 \<and> g ! 0 ! 0 = 0
       \<and> unat (grayscale_of ball_frame ! 5 ! 7) = 708
       \<and> unat (grayscale_of ball_frame ! 0 ! 0) = 233"
proof -
  from state_cells_binary[OF ball_store_frame ball_frame_shape]
  obtain g where g: "state_value 1 ball_store = Some g"
    and cells: "\<forall>i<80. \<forall>j<80.
              (g ! i ! j = 0 \<or> g ! i ! j = 1) \<and>
              (g ! i ! j = 1 \<longleftrightarrow> grayscale_of ball_frame ! i ! j \<noteq> 233) \<and>
              unat (grayscale_of ball_frame ! i ! j) =
                unat (ball_frame ! (34 + 2 * i) ! (2 * j) ! 0)
                + unat (ball_frame ! (34 + 2 * i) ! (2 * j) ! 1)
                + unat (ball_frame ! (34 + 2 * i) ! (2 * j) ! 2)"
    by (elim exE conjE)
  have small: "(5::nat) < 80" "(7::nat) < 80" "(0::nat) < 80" by simp_all
  note at57 = cells[rule_format, OF small(1) small(2)]
  note at00 = cells[rule_format, OF small(3) small(3)]
  have u57: "unat (grayscale_of ball_frame ! 5 ! 7) = 708"
    using at57[THEN conjunct2, THEN conjunct2] by (simp add: ball_pixel)
  have u00: "unat (grayscale_of ball_frame ! 0 ! 0) = 233"
    using at00[THEN conjunct2, THEN conjunct2] by (simp add: background_pixel)
  have c57: "g ! 5 ! 7 = 1 \<longleftrightarrow> grayscale_of ball_frame ! 5 ! 7 \<noteq> 233"
    by (rule at57[THEN conjunct2, THEN conjunct1])
  have c00: "(g ! 0 ! 0 = 0 \<or> g ! 0 ! 0 = 1) \<and>
             (g ! 0 ! 0 = 1 \<longleftrightarrow> grayscale_of ball_frame ! 0 ! 0 \<noteq> 233)"
    using at00 by blast
  from u57 have "grayscale_of ball_frame ! 5 ! 7 \<noteq> 233" by auto
  with c57 have g57: "g ! 5 ! 7 = 1" by simp
  from u00 have "grayscale_of ball_frame ! 0 ! 0 = 233" by (simp add: word_233)
  with c00 have g00: "g ! 0 ! 0 = 0" by auto
  from g g57 g00 u57 u00 show ?thesis by (intro exI[of _ g] conjI)
qed

theorem state_is_crop_subsample_sum_threshold_witness:
  "state_value 1 demo_store = Some (spec_state pong_background)
   \<and> crop pong_background = spec_crop pong_background
   \<and> reduce (crop pong_background)
       = map spec_subsample (spec_subsample (spec_crop pong_background))
   \<and> length (reduce (crop pong_background)) = 160 div 2
   \<and> list_all (\<lambda>row. length row = 160 div 2) (reduce (crop pong_background))
   \<and> map (map unat) (grayscale_of pong_background) =
       spec_sum_channels (map spec_subsample (spec_subsample (spec_crop pong_background)))
   \<and> black_white pong_background
       = spec_threshold (map (map unat) (grayscale_of pong_background))"
  unfolding list_all_iff
  by (rule state_is_crop_subsample_sum_threshold[OF demo_store_frame background_shape])

section \<open>Reads and copies in the store\<close>

lemma stored_frame_append:
  assumes "stored_frame h self = Some f"
  shows "stored_frame (h @ xs) self = Some f"
proof -
  from assms obtain e a where e: "lookup h self = Some (EnvObj e)"
    and a: "priv_state e = Some a" and f: "lookup h a = Some (U8Array f)"
    by (auto simp: stored_frame_def split: option.splits obj.splits)
  from e f have "self < length h" and "a < length h"
    by (auto dest: lookup_Some_less)
  with e a f show ?thesis
    by (simp add: stored_frame_def lookup_append_old)
qed

text \<open>
  Claim C4. The transform is deterministic: two reads of \<^verbatim>\<open>PongEnv.state\<close> with the same
  stored raw frame return equal grids, whatever else the two stores hold and whichever
  instances are read; and a read that follows a read directly, with no step between,
  succeeds and returns a grid equal to the first one.
\<close>

theorem state_deterministic:
  "(stored_frame h1 self1 = Some f \<and> stored_frame h2 self2 = Some f \<longrightarrow>
      state_value self1 h1 = Some (black_white f) \<and> state_value self2 h2 = state_value self1 h1)
   \<and> (PongEnv_state self h = Inr (b, h') \<longrightarrow>
      (\<exists>b' h''. PongEnv_state self h' = Inr (b', h'') \<and> grid_at h'' b' = grid_at h' b
         \<and> grid_at h' b \<noteq> None))"
proof (intro conjI impI)
  assume "stored_frame h1 self1 = Some f \<and> stored_frame h2 self2 = Some f"
  then show "state_value self1 h1 = Some (black_white f)"
    and "state_value self2 h2 = state_value self1 h1"
    by (simp_all add: state_value_eq)
next
  assume r: "PongEnv_state self h = Inr (b, h')"
  then obtain f where f: "stored_frame h self = Some f"
    by (cases "stored_frame h self") (simp_all add: state_read_fails)
  with r have b: "b = length h + 2" and h': "h' = h @ [U8Array f, U64Array (np_sum_axis2 (reduce (crop f))),
                   F64Array (black_white f),
                   BoolArray (np_not_equal (np_sum_axis2 (reduce (crop f))) 233)]"
    by (simp_all add: state_read)
  from f have f': "stored_frame h' self = Some f"
    unfolding h' by (rule stored_frame_append)
  have g: "grid_at h' b = Some (black_white f)"
    by (simp add: b h' grid_at_def lookup_def nth_append)
  have "grid_at (snd (projr (PongEnv_state self h'))) (fst (projr (PongEnv_state self h'))) = Some (black_white f)"
    by (simp add: state_read[OF f'] grid_at_def lookup_def nth_append)
  with g show "\<exists>b' h''. PongEnv_state self h' = Inr (b', h'') \<and> grid_at h'' b' = grid_at h' b
         \<and> grid_at h' b \<noteq> None"
    by (simp add: state_read[OF f'])
qed


theorem state_deterministic_witness:
  "state_value 1 demo_store = Some (black_white pong_background)
   \<and> state_value 1 (apply_operation Construct demo_store) = state_value 1 demo_store
   \<and> (\<exists>b h' b' h''. PongEnv_state 1 demo_store = Inr (b, h')
         \<and> PongEnv_state 1 h' = Inr (b', h'') \<and> grid_at h'' b' = grid_at h' b
         \<and> grid_at h' b \<noteq> None)"
proof -
  have other: "stored_frame (apply_operation Construct demo_store) 1 = Some pong_background"
    using demo_store_frame by (simp add: PongEnv_init_eq stored_frame_append)
  obtain b h' where r: "PongEnv_state 1 demo_store = Inr (b, h')"
    using state_read[OF demo_store_frame] by blast
  show ?thesis
    using state_deterministic[of demo_store 1 pong_background
        "apply_operation Construct demo_store" 1 1 demo_store b h'] demo_store_frame other r
    by blast
qed

lemma state_read_shape:
  assumes "stored_frame h self = Some f"
  shows "\<exists>t u v. PongEnv_state self h = Inr (length h + 2, h @ [t, u, F64Array (black_white f), v])"
  using state_read[OF assms] by blast

text \<open>
  Claim C9. A read of \<^verbatim>\<open>PongEnv.state\<close> has no side effect on the environment: it
  returns a newly allocated array and leaves every object that was in the store as it
  was, the stored raw frame and \<^verbatim>\<open>_state_shape\<close> among them; so two reads in a row
  return two different arrays with equal contents, and the second read does not change
  the array the first one returned.
\<close>

theorem state_read_no_side_effect:
  assumes "stored_frame h self = Some f"
  shows "\<exists>b1 h1 b2 h2.
           PongEnv_state self h = Inr (b1, h1) \<and> PongEnv_state self h1 = Inr (b2, h2)
           \<and> length h \<le> b1 \<and> length h1 \<le> b2 \<and> b1 \<noteq> b2
           \<and> (\<forall>a < length h. lookup h1 a = lookup h a)
           \<and> (\<forall>a < length h1. lookup h2 a = lookup h1 a)
           \<and> stored_frame h1 self = Some f \<and> stored_frame h2 self = Some f
           \<and> declared_shape h1 self = declared_shape h self
           \<and> declared_shape h2 self = declared_shape h self
           \<and> grid_at h1 b1 = Some (black_white f)
           \<and> grid_at h2 b1 = Some (black_white f)
           \<and> grid_at h2 b2 = Some (black_white f)"
proof -
  from assms obtain t u v where r1:
    "PongEnv_state self h = Inr (length h + 2, h @ [t, u, F64Array (black_white f), v])"
    by (blast dest: state_read_shape)
  define h1 where "h1 = h @ [t, u, F64Array (black_white f), v]"
  have f1: "stored_frame h1 self = Some f"
    unfolding h1_def using assms by (rule stored_frame_append)
  then obtain t' u' v' where r2:
    "PongEnv_state self h1 = Inr (length h1 + 2, h1 @ [t', u', F64Array (black_white f), v'])"
    by (blast dest: state_read_shape)
  define h2 where "h2 = h1 @ [t', u', F64Array (black_white f), v']"
  have f2: "stored_frame h2 self = Some f"
    unfolding h2_def using f1 by (rule stored_frame_append)
  from assms have self: "self < length h"
    by (auto simp: stored_frame_def dest: lookup_Some_less split: option.splits obj.splits)
  have len1: "length h1 = length h + 4" by (simp add: h1_def)
  have old1: "\<forall>a < length h. lookup h1 a = lookup h a"
    by (simp add: h1_def lookup_append_old)
  have old2: "\<forall>a < length h1. lookup h2 a = lookup h1 a"
    by (simp add: h2_def lookup_append_old)
  have d1: "declared_shape h1 self = declared_shape h self"
    using self old1 by (simp add: declared_shape_def)
  have d2: "declared_shape h2 self = declared_shape h self"
    using self old1 old2 len1 by (simp add: declared_shape_def)
  have g1: "grid_at h1 (length h + 2) = Some (black_white f)"
    by (simp add: h1_def grid_at_def lookup_def nth_append)
  have g21: "grid_at h2 (length h + 2) = Some (black_white f)"
    using g1 old2 len1 by (simp add: grid_at_def)
  have g22: "grid_at h2 (length h1 + 2) = Some (black_white f)"
    by (simp add: h2_def grid_at_def lookup_def nth_append)
  show ?thesis
  proof (intro exI conjI)
    show "PongEnv_state self h = Inr (length h + 2, h1)" by (simp add: r1 h1_def)
    show "PongEnv_state self h1 = Inr (length h1 + 2, h2)" by (simp add: r2 h2_def)
    show "length h \<le> length h + 2" by simp
    show "length h1 \<le> length h1 + 2" by simp
    show "length h + 2 \<noteq> length h1 + 2" by (simp add: len1)
  qed (fact old1 old2 f1 f2 d1 d2 g1 g21 g22)+
qed

theorem state_read_no_side_effect_witness:
  "\<exists>b1 h1 b2 h2.
     PongEnv_state 1 demo_store = Inr (b1, h1) \<and> PongEnv_state 1 h1 = Inr (b2, h2)
     \<and> length demo_store \<le> b1 \<and> length h1 \<le> b2 \<and> b1 \<noteq> b2
     \<and> (\<forall>a < length demo_store. lookup h1 a = lookup demo_store a)
     \<and> (\<forall>a < length h1. lookup h2 a = lookup h1 a)
     \<and> stored_frame h1 1 = Some pong_background \<and> stored_frame h2 1 = Some pong_background
     \<and> declared_shape h1 1 = declared_shape demo_store 1
     \<and> declared_shape h2 1 = declared_shape demo_store 1
     \<and> grid_at h1 b1 = Some (black_white pong_background)
     \<and> grid_at h2 b1 = Some (black_white pong_background)
     \<and> grid_at h2 b2 = Some (black_white pong_background)"
  using demo_store_frame by (rule state_read_no_side_effect)

lemma set_ref_list: "set (ref_list e) = refs e"
  by (simp add: refs_def)

lemma refs_allocated_iff:
  "refs_allocated h \<longleftrightarrow> (\<forall>e. EnvObj e \<in> set h \<longrightarrow> (\<forall>r \<in> refs e. r < length h))"
proof
  assume a: "refs_allocated h"
  show "\<forall>e. EnvObj e \<in> set h \<longrightarrow> (\<forall>r \<in> refs e. r < length h)"
  proof (intro allI impI)
    fix e assume "EnvObj e \<in> set h"
    with a have "list_all (\<lambda>a. a < length h) (ref_list e)"
      unfolding refs_allocated_def list_all_iff by fastforce
    then show "\<forall>r \<in> refs e. r < length h"
      by (simp add: list_all_iff set_ref_list)
  qed
next
  assume a: "\<forall>e. EnvObj e \<in> set h \<longrightarrow> (\<forall>r \<in> refs e. r < length h)"
  show "refs_allocated h"
    unfolding refs_allocated_def list_all_iff
  proof
    fix v assume v: "v \<in> set h"
    show "case v of EnvObj e \<Rightarrow> \<forall>a \<in> set (ref_list e). a < length h | _ \<Rightarrow> True"
    proof (cases v)
      case (EnvObj e)
      with v a have "\<forall>r \<in> refs e. r < length h" by blast
      with EnvObj show ?thesis by (simp add: set_ref_list)
    qed simp_all
  qed
qed

lemma refs_allocatedI:
  assumes "\<And>e. EnvObj e \<in> set h \<Longrightarrow> \<forall>r \<in> refs e. r < length h"
  shows "refs_allocated h"
  using assms by (simp add: refs_allocated_iff)

lemma refs_allocated_set:
  "refs_allocated h \<Longrightarrow> EnvObj e \<in> set h \<Longrightarrow> \<forall>r \<in> refs e. r < length h"
  by (simp add: refs_allocated_iff)

lemma refs_allocatedD:
  assumes "refs_allocated h" and "lookup h a = Some (EnvObj e)"
  shows "\<forall>r \<in> refs e. r < length h"
proof -
  from assms(2) have "a < length h" and "h ! a = EnvObj e"
    by (simp_all add: lookup_def split: if_splits)
  then have "EnvObj e \<in> set h" by (metis nth_mem)
  with assms(1) show ?thesis by (rule refs_allocated_set)
qed

lemma refs_allocated_append:
  assumes "refs_allocated h" and "\<And>e. EnvObj e \<in> set xs \<Longrightarrow> \<forall>r \<in> refs e. r < length h + length xs"
  shows "refs_allocated (h @ xs)"
proof (rule refs_allocatedI)
  fix e assume "EnvObj e \<in> set (h @ xs)"
  then consider "EnvObj e \<in> set h" | "EnvObj e \<in> set xs" by auto
  then show "\<forall>r \<in> refs e. r < length (h @ xs)"
  proof cases
    case 1
    with assms(1) have "\<forall>r \<in> refs e. r < length h" by (rule refs_allocated_set)
    then show ?thesis by auto
  next
    case 2
    then show ?thesis using assms(2) by simp
  qed
qed

lemma refs_allocated_store_frame:
  assumes "refs_allocated h" and "lookup h self = Some (EnvObj e)"
  shows "refs_allocated ((h @ [U8Array fr])[self := EnvObj (e\<lparr>priv_state := Some (length h)\<rparr>)])"
proof (rule refs_allocatedI)
  fix e' assume "EnvObj e' \<in> set ((h @ [U8Array fr])[self := EnvObj (e\<lparr>priv_state := Some (length h)\<rparr>)])"
  then have "EnvObj e' \<in> insert (EnvObj (e\<lparr>priv_state := Some (length h)\<rparr>)) (set (h @ [U8Array fr]))"
    by (rule set_update_subset_insert[THEN subsetD])
  then consider "e' = e\<lparr>priv_state := Some (length h)\<rparr>" | "EnvObj e' \<in> set h" by auto
  then show "\<forall>r \<in> refs e'. r < length ((h @ [U8Array fr])[self := EnvObj (e\<lparr>priv_state := Some (length h)\<rparr>)])"
  proof cases
    case 1
    from assms have "\<forall>r \<in> refs e. r < length h" by (rule refs_allocatedD)
    with 1 show ?thesis by (auto simp: refs_def ref_list_def)
  next
    case 2
    with assms(1) have "\<forall>r \<in> refs e'. r < length h" by (rule refs_allocated_set)
    then show ?thesis by auto
  qed
qed

lemma refs_allocated_operation:
  assumes "refs_allocated h"
  shows "refs_allocated (apply_operation x h)"
proof (cases x)
  case Construct
  have "refs_allocated (h @ [Gym ''Pong-v0'',
           EnvObj \<lparr>env = length h, name = ''Pong-v0'', priv_state = None,
                   priv_state_shape = [80, 80]\<rparr>])"
    using assms by (rule refs_allocated_append) (auto simp: refs_def ref_list_def)
  with Construct show ?thesis by (simp add: PongEnv_init_eq)
next
  case (Read self)
  show ?thesis
  proof (cases "stored_frame h self")
    case None
    with Read assms show ?thesis by (simp add: state_read_fails)
  next
    case (Some f)
    have "refs_allocated (h @ [U8Array f, U64Array (np_sum_axis2 (reduce (crop f))),
                   F64Array (black_white f),
                   BoolArray (np_not_equal (np_sum_axis2 (reduce (crop f))) 233)])"
      using assms by (rule refs_allocated_append) auto
    with Read Some show ?thesis by (simp add: state_read)
  qed
next
  case (Deepcopy self memo)
  have "refs_allocated (h @ [Gym ''Pong-v0'',
           EnvObj \<lparr>env = length h, name = ''Pong-v0'', priv_state = None,
                   priv_state_shape = [80, 80]\<rparr>])"
    using assms by (rule refs_allocated_append) (auto simp: refs_def ref_list_def)
  with Deepcopy show ?thesis by (simp add: PongEnv_deepcopy_def PongEnv_init_eq)
next
  case (Reset self fr)
  with assms show ?thesis
    by (simp add: GymEnvironment_reset_def alloc_def refs_allocated_store_frame
        split: option.splits obj.splits)
next
  case (Step self act fr)
  with assms show ?thesis
    by (simp add: GymEnvironment_step_def alloc_def refs_allocated_store_frame
        split: option.splits obj.splits)
qed

lemma refs_allocated_run: "refs_allocated h \<Longrightarrow> refs_allocated (run ops h)"
  by (induction ops arbitrary: h) (simp_all add: refs_allocated_operation)

lemma refs_allocated_empty: "refs_allocated []"
  by (simp add: refs_allocated_def)

lemma demo_store_run: "run [Construct, Reset 1 pong_background] [] = demo_store"
  by (simp add: demo_store_def)

text \<open>
  Claim C5. For every \<^verbatim>\<open>PongEnv\<close> instance, in any store that a sequence of operations
  builds from the empty store, \<^verbatim>\<open>__deepcopy__\<close> returns what the constructor
  \<^verbatim>\<open>PongEnv()\<close> returns: a new instance, different from the original, with
  \<^verbatim>\<open>_state_shape\<close> equal to \<^verbatim>\<open>(80, 80)\<close>, whose simulator is newly allocated too, so
  that the copy and what it refers to are disjoint from the original and what that
  refers to; the objects of the store before the call are unchanged.
\<close>

theorem deepcopy_fresh_instance:
  assumes "lookup (run ops []) self = Some (EnvObj e)"
  shows "\<exists>c h' e'.
           PongEnv_deepcopy self memo (run ops []) = (c, h')
           \<and> (c, h') = PongEnv_init (run ops [])
           \<and> length (run ops []) \<le> c \<and> c \<noteq> self
           \<and> lookup h' c = Some (EnvObj e') \<and> priv_state_shape e' = [80, 80]
           \<and> declared_shape h' c = Some [80, 80]
           \<and> (\<forall>a \<in> refs e'. length (run ops []) \<le> a \<and> a < length h')
           \<and> insert c (refs e') \<inter> insert self (refs e) = {}
           \<and> (\<forall>a < length (run ops []). lookup h' a = lookup (run ops []) a)"
proof -
  define h where "h = run ops []"
  define e' where "e' = \<lparr>env = length h, name = ''Pong-v0'', priv_state = None,
                   priv_state_shape = [80, 80]\<rparr>"
  define h' where "h' = h @ [Gym ''Pong-v0'', EnvObj e']"
  from assms have e: "lookup h self = Some (EnvObj e)" by (simp add: h_def)
  then have self: "self < length h" by (rule lookup_Some_less)
  have "refs_allocated h"
    unfolding h_def using refs_allocated_empty by (rule refs_allocated_run)
  then have old: "\<forall>a \<in> refs e. a < length h"
    using e by (rule refs_allocatedD)
  have refs: "refs e' = {length h}" by (simp add: refs_def ref_list_def e'_def)
  have "\<exists>c h' e'.
           PongEnv_deepcopy self memo h = (c, h')
           \<and> (c, h') = PongEnv_init h
           \<and> length h \<le> c \<and> c \<noteq> self
           \<and> lookup h' c = Some (EnvObj e') \<and> priv_state_shape e' = [80, 80]
           \<and> declared_shape h' c = Some [80, 80]
           \<and> (\<forall>a \<in> refs e'. length h \<le> a \<and> a < length h')
           \<and> insert c (refs e') \<inter> insert self (refs e) = {}
           \<and> (\<forall>a < length h. lookup h' a = lookup h a)"
  proof (intro exI conjI)
    show "PongEnv_deepcopy self memo h = (Suc (length h), h')"
      by (simp add: PongEnv_deepcopy_def PongEnv_init_eq h'_def e'_def)
    show "(Suc (length h), h') = PongEnv_init h"
      by (simp add: PongEnv_init_eq h'_def e'_def)
    show "length h \<le> Suc (length h)" by simp
    show "Suc (length h) \<noteq> self" using self by simp
    show "lookup h' (Suc (length h)) = Some (EnvObj e')"
      by (simp add: h'_def lookup_def nth_append)
    show "priv_state_shape e' = [80, 80]" by (simp add: e'_def)
    show "declared_shape h' (Suc (length h)) = Some [80, 80]"
      by (simp add: declared_shape_def h'_def e'_def lookup_def nth_append)
    show "\<forall>a \<in> refs e'. length h \<le> a \<and> a < length h'"
      by (simp add: refs h'_def)
    show "insert (Suc (length h)) (refs e') \<inter> insert self (refs e) = {}"
      using self old by (auto simp: refs)
    show "\<forall>a < length h. lookup h' a = lookup h a"
      by (simp add: h'_def lookup_append_old)
  qed
  then show ?thesis by (simp only: h_def)
qed

theorem deepcopy_fresh_instance_witness:
  "\<exists>c h' e'.
     PongEnv_deepcopy 1 Map.empty demo_store = (c, h')
     \<and> (c, h') = PongEnv_init demo_store
     \<and> length demo_store \<le> c \<and> c \<noteq> 1
     \<and> lookup h' c = Some (EnvObj e') \<and> priv_state_shape e' = [80, 80]
     \<and> declared_shape h' c = Some [80, 80]
     \<and> (\<forall>a \<in> refs e'. length demo_store \<le> a \<and> a < length h')
     \<and> insert c (refs e') \<inter> insert 1 (refs \<lparr>env = 0, name = ''Pong-v0'', priv_state = Some 2,
                                                priv_state_shape = [80, 80]\<rparr>) = {}
     \<and> (\<forall>a < length demo_store. lookup h' a = lookup demo_store a)"
proof -
  have "lookup (run [Construct, Reset 1 pong_background] []) 1 =
        Some (EnvObj \<lparr>env = 0, name = ''Pong-v0'', priv_state = Some 2,
                      priv_state_shape = [80, 80]\<rparr>)"
    by (simp only: demo_store_run demo_store_env)
  from deepcopy_fresh_instance[OF this, of Map.empty]
  show ?thesis by (simp only: demo_store_run)
qed

text \<open>
  Claim C10. The result of \<^verbatim>\<open>__deepcopy__\<close> depends neither on the memo nor on the
  instance it is called on: in one store, any two calls return what \<^verbatim>\<open>PongEnv()\<close>
  returns; and in any two stores, the two copies are configured alike: the same name,
  the shape \<^verbatim>\<open>(80, 80)\<close>, a new simulator of the game \<^verbatim>\<open>'Pong-v0'\<close>, and no stored
  frame, so the copy is an environment in its initial state and not a snapshot of the
  original.
\<close>

theorem deepcopy_independent:
  "PongEnv_deepcopy self1 memo1 h = PongEnv_deepcopy self2 memo2 h
   \<and> PongEnv_deepcopy self1 memo1 h = PongEnv_init h
   \<and> (\<exists>c1 c2 k1 k2 e1 e2.
        PongEnv_deepcopy self1 memo1 h1 = (c1, h1 @ k1)
        \<and> PongEnv_deepcopy self2 memo2 h2 = (c2, h2 @ k2)
        \<and> lookup (h1 @ k1) c1 = Some (EnvObj e1) \<and> lookup (h2 @ k2) c2 = Some (EnvObj e2)
        \<and> k1 = [Gym ''Pong-v0'', EnvObj e1] \<and> k2 = [Gym ''Pong-v0'', EnvObj e2]
        \<and> name e1 = name e2 \<and> priv_state e1 = None \<and> priv_state e2 = None
        \<and> priv_state_shape e1 = [80, 80] \<and> priv_state_shape e2 = [80, 80]
        \<and> lookup (h1 @ k1) (env e1) = Some (Gym ''Pong-v0'')
        \<and> lookup (h2 @ k2) (env e2) = Some (Gym ''Pong-v0'')
        \<and> stored_frame (h1 @ k1) c1 = None \<and> stored_frame (h2 @ k2) c2 = None)"
  by (simp add: PongEnv_deepcopy_def PongEnv_init_eq lookup_def nth_append stored_frame_def)

section \<open>The policy\<close>

text \<open>
  Claim C7. For every state input, the dictionary that \<^verbatim>\<open>PongPolicy.create_layers\<close>
  returns has exactly the keys \<^verbatim>\<open>'action_prob'\<close> and \<^verbatim>\<open>'value'\<close>; the first is bound
  to a dense layer with a softmax activation and as many outputs as the environment has
  actions, the second to a dense layer with one output and no activation, and both read
  the same concatenated layer.
\<close>

theorem create_layers_outputs:
  "dom (create_layers state n_actions) = {''action_prob'', ''value''}
   \<and> (\<exists>concat.
        create_layers state n_actions ''action_prob'' = Some (Dense n_actions concat (Some softmax))
        \<and> create_layers state n_actions ''value'' = Some (Dense 1 concat None))"
  by (auto simp: create_layers_def Let_def)

section \<open>Rendering and the playback loop: termination and errors\<close>

lemma stored_frame_env:
  "stored_frame h self = Some f \<Longrightarrow> \<exists>e. lookup h self = Some (EnvObj e)"
  by (auto simp: stored_frame_def split: option.splits obj.splits)

lemma render_env_from_empty:
  "render_env r pr p = (case render_env r pr [] of Inl x \<Rightarrow> Inl x | Inr q \<Rightarrow> Inr (p @ q))"
  by (simp add: render_env_def split: sum.splits exn.splits)

lemma render_env_message:
  "render_env r pr [] = Inr q \<Longrightarrow> q = caught_message r"
  by (auto simp: render_env_def caught_message_def split: sum.splits exn.splits)

lemma render_env_propagates:
  "\<not> is_Exception x \<Longrightarrow> render_env (Inl x) pr p = Inl x"
  by (cases x) (simp_all add: render_env_def is_Exception_def)

lemma render_env_returns_iff:
  "(\<exists>p'. render_env r pr p = Inr p') \<longleftrightarrow> (\<forall>x. r = Inl x \<longrightarrow> is_Exception x \<and> pr = Inr ())"
  by (auto simp: render_env_def is_Exception_def split: sum.splits exn.splits)

lemma loop_body_render_raises:
  assumes "render_env (rendering w k) (printing w k) [] = Inl x"
  shows "loop_body w e k s = Inl x"
proof -
  have "render_env (rendering w k) (printing w k) (printed s) = Inl x"
    by (subst render_env_from_empty) (simp add: assms)
  then show ?thesis by (simp add: loop_body_def)
qed

lemma loop_body_iteration:
  assumes f: "stored_frame (store s) e = Some f"
  shows "(\<forall>x. iteration w k f = Inl x \<longrightarrow> loop_body w e k s = Inl x)
       \<and> (\<forall>f'. iteration w k f = Inr f' \<longrightarrow>
            (\<exists>s'. loop_body w e k s = Inr s'
               \<and> stored_frame (store s') e = Some f'
               \<and> printed s' = printed s @ caught_message (rendering w k)
               \<and> calls s' = calls s @ [render_env_call, step_call]))"
proof (cases "render_env (rendering w k) (printing w k) []")
  case (Inl x)
  then have "loop_body w e k s = Inl x" by (rule loop_body_render_raises)
  with Inl show ?thesis by (simp add: iteration_def)
next
  case (Inr q)
  then have "q = caught_message (rendering w k)" by (rule render_env_message)
  with Inr have p': "render_env (rendering w k) (printing w k) (printed s) =
      Inr (printed s @ caught_message (rendering w k))"
    by (subst render_env_from_empty) simp
  from f obtain t u v where rd: "PongEnv_state e (store s) =
      Inr (length (store s) + 2, store s @ [t, u, F64Array (black_white f), v])"
    by (blast dest: state_read_shape)
  define h1 where "h1 = store s @ [t, u, F64Array (black_white f), v]"
  have g: "grid_at h1 (length (store s) + 2) = Some (black_white f)"
    by (simp add: h1_def grid_at_def lookup_def nth_append)
  from f obtain eo where "lookup (store s) e = Some (EnvObj eo)"
    by (blast dest: stored_frame_env)
  then have eo: "lookup h1 e = Some (EnvObj eo)"
    by (frule_tac lookup_Some_less) (simp add: h1_def lookup_append_old)
  have body: "loop_body w e k s =
      (case select_action w k (black_white f) of
         Inl x \<Rightarrow> Inl x
       | Inr a \<Rightarrow>
           (case screen w k a of
              Inl x \<Rightarrow> Inl x
            | Inr fr \<Rightarrow>
                Inr \<lparr>store = GymEnvironment_step e a (\<lambda>_. fr) h1,
                     printed = printed s @ caught_message (rendering w k),
                     calls = calls s @ [render_env_call, step_call]\<rparr>))"
    using p' rd g unfolding h1_def by (simp add: loop_body_def)
  have it: "iteration w k f =
      (case select_action w k (black_white f) of Inl x \<Rightarrow> Inl x | Inr a \<Rightarrow> screen w k a)"
    using Inr by (simp add: iteration_def)
  show ?thesis
    unfolding body it
    using stored_after_step[OF eo]
    by (auto split: sum.splits)
qed

lemma loop_body_raises:
  "stored_frame (store s) e = Some f \<Longrightarrow> iteration w k f = Inl x \<Longrightarrow>
   loop_body w e k s = Inl x"
  using loop_body_iteration[of s e f w k] by blast

lemma loop_body_quiet:
  "stored_frame (store s) e = Some f \<Longrightarrow> iteration w k f = Inr f' \<Longrightarrow>
   \<exists>s'. loop_body w e k s = Inr s'
      \<and> stored_frame (store s') e = Some f'
      \<and> printed s' = printed s @ caught_message (rendering w k)
      \<and> calls s' = calls s @ [render_env_call, step_call]"
  using loop_body_iteration[of s e f w k] by blast

lemma playback_stop:
  "\<not> now w (Suc k) - start < 120000000 \<Longrightarrow> playback w e start k s = Some (Inr (k, s))"
  by (subst playback.simps) simp

lemma playback_go:
  "now w (Suc k) - start < 120000000 \<Longrightarrow>
   playback w e start k s =
     (case loop_body w e k s of Inl x \<Rightarrow> Some (Inl x)
      | Inr s' \<Rightarrow> playback w e start (Suc k) s')"
  by (subst playback.simps) simp

lemma printed_after_Suc:
  "printed_after w (Suc k) = printed_after w k @ caught_message (rendering w k)"
  by (simp add: printed_after_def)

lemma concat_replicate_Suc: "concat (replicate (Suc k) x) = concat (replicate k x) @ x"
  by (induction k) simp_all

lemma frame_after_sticky:
  "frame_after w k = Inl x \<Longrightarrow> k \<le> j \<Longrightarrow> frame_after w j = Inl x"
  by (induction j) (auto simp: le_Suc_eq)


lemma playback_frames:
  assumes "\<not> now w (Suc n) - start < 120000000"
    and "\<forall>j. k \<le> j \<and> j < n \<longrightarrow> now w (Suc j) - start < 120000000"
    and "k \<le> n"
    and "frame_after w k = Inr fk"
    and "stored_frame (store s) e = Some fk"
    and "printed s = printed_after w k"
    and "calls s = c0 @ concat (replicate k [render_env_call, step_call])"
  shows "(\<forall>f. frame_after w n = Inr f \<longrightarrow>
            (\<exists>s'. playback w e start k s = Some (Inr (n, s'))
               \<and> stored_frame (store s') e = Some f
               \<and> printed s' = printed_after w n
               \<and> calls s' = c0 @ concat (replicate n [render_env_call, step_call])))
       \<and> (\<forall>x. frame_after w n = Inl x \<longrightarrow> playback w e start k s = Some (Inl x))"
  using assms(2-7)
proof (induction "n - k" arbitrary: k s fk)
  case 0
  from 0(1,3) have kn: "k = n" by simp
  from assms(1) have pb: "playback w e start k s = Some (Inr (n, s))"
    unfolding kn by (rule playback_stop)
  from 0(4) have fa: "frame_after w n = Inr fk" by (simp only: kn)
  from 0(5) have st: "stored_frame (store s) e = Some fk" .
  from 0(6) have pr: "printed s = printed_after w n" by (simp only: kn)
  from 0(7) have ca: "calls s = c0 @ concat (replicate n [render_env_call, step_call])"
    by (simp only: kn)
  show ?case
  proof (intro conjI allI impI)
    fix f assume "frame_after w n = Inr f"
    with fa have "f = fk" by simp
    with pb st pr ca
    show "\<exists>s'. playback w e start k s = Some (Inr (n, s'))
               \<and> stored_frame (store s') e = Some f
               \<and> printed s' = printed_after w n
               \<and> calls s' = c0 @ concat (replicate n [render_env_call, step_call])"
      by (intro exI[of _ s] conjI) simp_all
  next
    fix x assume "frame_after w n = Inl x"
    with fa show "playback w e start k s = Some (Inl x)" by simp
  qed
next
  case (Suc d)
  from Suc.hyps(2) have lt: "k < n" and d: "d = n - Suc k" by simp_all
  from lt Suc.prems(1) have go: "now w (Suc k) - start < 120000000" by simp
  from lt Suc.prems(1)
  have tests: "\<forall>j. Suc k \<le> j \<and> j < n \<longrightarrow> now w (Suc j) - start < 120000000" by simp
  from lt have le: "Suc k \<le> n" by simp
  show ?case
  proof (cases "iteration w k fk")
    case (Inl x)
    with Suc.prems(3) have "frame_after w (Suc k) = Inl x" by simp
    then have n: "frame_after w n = Inl x"
      using le by (rule frame_after_sticky)
    from Suc.prems(4) Inl have "loop_body w e k s = Inl x" by (rule loop_body_raises)
    with go have pb: "playback w e start k s = Some (Inl x)" by (simp add: playback_go)
    show ?thesis
    proof (intro conjI allI impI)
      fix f assume "frame_after w n = Inr f"
      with n show "\<exists>s'. playback w e start k s = Some (Inr (n, s'))
               \<and> stored_frame (store s') e = Some f
               \<and> printed s' = printed_after w n
               \<and> calls s' = c0 @ concat (replicate n [render_env_call, step_call])"
        by simp
    next
      fix y assume "frame_after w n = Inl y"
      with n have "y = x" by simp
      with pb show "playback w e start k s = Some (Inl y)" by simp
    qed
  next
    case (Inr f1)
    with Suc.prems(3) have fa: "frame_after w (Suc k) = Inr f1" by simp
    from loop_body_quiet[OF Suc.prems(4) Inr]
    obtain s1 where s1: "loop_body w e k s = Inr s1"
      and f1: "stored_frame (store s1) e = Some f1"
      and p1: "printed s1 = printed s @ caught_message (rendering w k)"
      and c1: "calls s1 = calls s @ [render_env_call, step_call]"
      by (elim exE conjE)
    from p1 Suc.prems(5) have p1': "printed s1 = printed_after w (Suc k)"
      by (simp only: printed_after_Suc)
    from c1 Suc.prems(6)
    have c1': "calls s1 = c0 @ concat (replicate (Suc k) [render_env_call, step_call])"
      by (simp only: concat_replicate_Suc append_assoc)
    from go s1 have eq: "playback w e start k s = playback w e start (Suc k) s1"
      by (simp add: playback_go)
    show ?thesis
      unfolding eq by (rule Suc.hyps(1)[OF d tests le fa f1 p1' c1'])
  qed
qed

lemma clock_lower_bound:
  assumes "clock_advances w"
  shows "now w 0 + int k \<le> now w k"
proof (induction k)
  case 0
  show ?case by simp
next
  case (Suc k)
  from assms have "now w k < now w (Suc k)" by (simp add: clock_advances_def)
  with Suc show ?case by simp
qed

lemma clock_reaches:
  assumes "clock_advances w"
  shows "\<exists>n. \<not> now w (Suc n) - now w 0 < 120000000 \<and>
             (\<forall>j<n. now w (Suc j) - now w 0 < 120000000)"
proof -
  have "\<not> now w (Suc 120000000) - now w 0 < 120000000"
    using clock_lower_bound[OF assms, of "Suc 120000000"] by simp
  then have "\<exists>n. \<not> now w (Suc n) - now w 0 < 120000000" ..
  then show ?thesis
    by (simp only: exists_least_iff[of "\<lambda>n. \<not> now w (Suc n) - now w 0 < 120000000"] not_not)
qed

lemma notebook_eq:
  "notebook w =
     playback w 1 (now w 0) 0
       \<lparr>store = GymEnvironment_reset 1 (first_screen w)
                  [Gym ''Pong-v0'',
                   EnvObj \<lparr>env = 0, name = ''Pong-v0'', priv_state = None,
                           priv_state_shape = [80, 80]\<rparr>],
        printed = [],
        calls = [PongEnv_call, PongPolicy_call, A3C_call, fit_call 1000 False,
                 restore_call, reset_call]\<rparr>"
  by (simp add: notebook_def PongEnv_init_eq num_rounds_def)

lemma notebook_frame:
  "stored_frame (GymEnvironment_reset 1 fr
      [Gym ''Pong-v0'',
       EnvObj \<lparr>env = 0, name = ''Pong-v0'', priv_state = None,
               priv_state_shape = [80, 80]\<rparr>]) 1 = Some fr"
  by (rule stored_after_reset) (simp add: lookup_def)

lemma notebook_frames:
  assumes stop: "\<not> now w (Suc n) - now w 0 < 120000000"
    and before: "\<forall>j<n. now w (Suc j) - now w 0 < 120000000"
  shows "(\<forall>f. frame_after w n = Inr f \<longrightarrow>
            (\<exists>s. notebook w = Some (Inr (n, s))
               \<and> stored_frame (store s) 1 = Some f
               \<and> printed s = printed_after w n
               \<and> calls s = [PongEnv_call, PongPolicy_call, A3C_call, fit_call 1000 False,
                            restore_call, reset_call]
                           @ concat (replicate n [render_env_call, step_call])))
       \<and> (\<forall>x. frame_after w n = Inl x \<longrightarrow> notebook w = Some (Inl x))"
proof -
  define s0 where "s0 = \<lparr>store = GymEnvironment_reset 1 (first_screen w)
                  [Gym ''Pong-v0'',
                   EnvObj \<lparr>env = 0, name = ''Pong-v0'', priv_state = None,
                           priv_state_shape = [80, 80]\<rparr>],
        printed = [],
        calls = [PongEnv_call, PongPolicy_call, A3C_call, fit_call 1000 False,
                 restore_call, reset_call]\<rparr>"
  have nb: "notebook w = playback w 1 (now w 0) 0 s0"
    by (simp only: notebook_eq s0_def)
  have fa: "frame_after w 0 = Inr (first_screen w)" by simp
  have f0: "stored_frame (store s0) 1 = Some (first_screen w)"
    unfolding s0_def run_state.select_convs by (rule notebook_frame)
  have p0: "printed s0 = printed_after w 0"
    by (simp add: s0_def printed_after_def)
  have c0: "calls s0 = [PongEnv_call, PongPolicy_call, A3C_call, fit_call 1000 False,
                        restore_call, reset_call]
                       @ concat (replicate 0 [render_env_call, step_call])"
    by (simp add: s0_def)
  from before have range: "\<forall>j. 0 \<le> j \<and> j < n \<longrightarrow> now w (Suc j) - now w 0 < 120000000"
    by simp
  have le: "0 \<le> n" by simp
  show ?thesis
    unfolding nb by (rule playback_frames[OF stop range le fa f0 p0 c0])
qed

lemma notebook_first_render_raises:
  assumes "now w (Suc 0) - now w 0 < 120000000"
    and "render_env (rendering w 0) (printing w 0) [] = Inl x"
  shows "notebook w = Some (Inl x)"
  unfolding notebook_eq
  by (subst playback_go[OF assms(1)]) (simp add: loop_body_render_raises[OF assms(2)])



lemma no_display_clock: "clock_advances no_display_world"
  by (simp add: clock_advances_def no_display_world_def demo_world_def)

lemma notebook_interrupted: "notebook interrupted_world = Some (Inl KeyboardInterrupt)"
  by (rule notebook_first_render_raises)
     (simp_all add: interrupted_world_def demo_world_def render_env_def)

lemma notebook_unprintable:
  "notebook unprintable_world = Some (Inl (Exception ''TypeError''))"
  by (rule notebook_first_render_raises)
     (simp_all add: unprintable_world_def demo_world_def render_env_def)









text \<open>
  Claim C6 as it is stated does not hold. \<^verbatim>\<open>except Exception\<close> does not match a
  \<^verbatim>\<open>KeyboardInterrupt\<close>, which the render call raises when the user interrupts the kernel
  while the window is drawn; and an exception that \<^verbatim>\<open>print(e)\<close> raises inside the handler
  (here a \<^verbatim>\<open>TypeError\<close> of \<^verbatim>\<open>str(e)\<close>) is caught by nothing. In both cases the exception
  leaves \<^verbatim>\<open>render_env\<close>, and the playback loop ends with it.
\<close>

theorem render_env_propagates_KeyboardInterrupt:
  "render_env (Inl KeyboardInterrupt) (Inr ()) [] = Inl KeyboardInterrupt
   \<and> notebook interrupted_world = Some (Inl KeyboardInterrupt)
   \<and> render_env (Inl (Exception ''no display'')) (Inl (Exception ''TypeError'')) []
       = Inl (Exception ''TypeError'')
   \<and> notebook unprintable_world = Some (Inl (Exception ''TypeError''))"
proof (intro conjI)
  show "render_env (Inl KeyboardInterrupt) (Inr ()) [] = Inl KeyboardInterrupt"
    by (simp add: render_env_def)
  show "notebook interrupted_world = Some (Inl KeyboardInterrupt)"
    by (rule notebook_interrupted)
  show "render_env (Inl (Exception ''no display'')) (Inl (Exception ''TypeError'')) []
       = Inl (Exception ''TypeError'')"
    by (simp add: render_env_def)
  show "notebook unprintable_world = Some (Inl (Exception ''TypeError''))"
    by (rule notebook_unprintable)
qed

lemma frame_after_quiet:
  assumes "\<forall>k x. rendering w k = Inl x \<longrightarrow> is_Exception x \<and> printing w k = Inr ()"
    and "\<forall>k g. \<not> isl (select_action w k g)"
    and "\<forall>k a. \<not> isl (screen w k a)"
  shows "\<exists>f. frame_after w n = Inr f"
proof (induction n)
  case 0
  show ?case by simp
next
  case (Suc n)
  then obtain f where f: "frame_after w n = Inr f" ..
  from assms(1) have "\<forall>x. rendering w n = Inl x \<longrightarrow> is_Exception x \<and> printing w n = Inr ()"
    by blast
  then obtain q where q: "render_env (rendering w n) (printing w n) [] = Inr q"
    using render_env_returns_iff[of "rendering w n" "printing w n" "[]"] by blast
  from assms(2) have "\<not> isl (select_action w n (black_white f))" by blast
  then obtain a where a: "select_action w n (black_white f) = Inr a"
    by (cases "select_action w n (black_white f)") simp_all
  from assms(3) have "\<not> isl (screen w n a)" by blast
  then obtain f' where f': "screen w n a = Inr f'"
    by (cases "screen w n a") simp_all
  from f q a f' show ?case by (simp add: iteration_def)
qed

lemma notebook_completes:
  assumes "clock_advances w"
    and "\<forall>k x. rendering w k = Inl x \<longrightarrow> is_Exception x \<and> printing w k = Inr ()"
    and "\<forall>k g. \<not> isl (select_action w k g)"
    and "\<forall>k a. \<not> isl (screen w k a)"
  shows "\<exists>n s. notebook w = Some (Inr (n, s)) \<and> printed s = printed_after w n"
proof -
  from assms(1) obtain n where stop: "\<not> now w (Suc n) - now w 0 < 120000000"
    and before: "\<forall>j<n. now w (Suc j) - now w 0 < 120000000"
    by (blast dest: clock_reaches)
  from assms(2-4) obtain f where "frame_after w n = Inr f"
    using frame_after_quiet[of w n] by blast
  with notebook_frames[OF stop before, THEN conjunct1]
  show ?thesis by blast
qed

lemma loop_body_after_caught:
  assumes "rendering w k = Inl (Exception m)" and "printing w k = Inr ()"
  shows "loop_body w e k s =
         loop_body (w\<lparr>rendering := (rendering w)(k := Inr ())\<rparr>) e k
           (s\<lparr>printed := printed s @ [m]\<rparr>)"
  using assms
  by (simp add: loop_body_def render_env_def
      cong: sum.case_cong option.case_cong prod.case_cong)

text \<open>
  Claim C6, amended. \<^verbatim>\<open>render_env\<close> catches the exceptions of the render call that are
  instances of \<^verbatim>\<open>Exception\<close> and prints them. It returns normally exactly when the render
  call returns, or raises an instance of \<^verbatim>\<open>Exception\<close> whose \<^verbatim>\<open>print\<close> returns; an
  exception that is not an instance of \<^verbatim>\<open>Exception\<close>, and an exception raised by
  \<^verbatim>\<open>print(e)\<close> in the handler, leave \<^verbatim>\<open>render_env\<close> and end the loop in that iteration.
  So a failure of the display backend that is an instance of \<^verbatim>\<open>Exception\<close> and can be
  printed does not interrupt the playback loop: the iteration goes on as it would after
  a render call that succeeded, with one more printed line; and if the render call
  raises nothing else, the trainer and the simulator raise nothing and the clock
  advances, the loop runs to its normal end.
\<close>

theorem render_env_catches_Exception:
  "render_env (Inr ()) pr p = Inr p
   \<and> render_env (Inl (Exception m)) (Inr ()) p = Inr (p @ [m])
   \<and> render_env (Inl (Exception m)) (Inl y) p = Inl y
   \<and> (\<not> is_Exception x \<longrightarrow> render_env (Inl x) pr p = Inl x)
   \<and> ((\<exists>p'. render_env r pr p = Inr p') \<longleftrightarrow>
        (\<forall>x. r = Inl x \<longrightarrow> is_Exception x \<and> pr = Inr ()))
   \<and> (render_env (rendering w k) (printing w k) [] = Inl z
        \<and> now w (Suc k) - start < 120000000
        \<longrightarrow> playback w e start k s = Some (Inl z))
   \<and> (rendering w k = Inl (Exception m) \<and> printing w k = Inr ()
        \<longrightarrow> loop_body w e k s =
            loop_body (w\<lparr>rendering := (rendering w)(k := Inr ())\<rparr>) e k
              (s\<lparr>printed := printed s @ [m]\<rparr>))
   \<and> (clock_advances w
        \<and> (\<forall>k x. rendering w k = Inl x \<longrightarrow> is_Exception x \<and> printing w k = Inr ())
        \<and> (\<forall>k g. \<not> isl (select_action w k g)) \<and> (\<forall>k a. \<not> isl (screen w k a))
        \<longrightarrow> (\<exists>n s. notebook w = Some (Inr (n, s)) \<and> printed s = printed_after w n))"
proof (intro conjI impI)
  show "render_env (Inr ()) pr p = Inr p"
    by (simp add: render_env_def)
  show "render_env (Inl (Exception m)) (Inr ()) p = Inr (p @ [m])"
    by (simp add: render_env_def)
  show "render_env (Inl (Exception m)) (Inl y) p = Inl y"
    by (simp add: render_env_def)
  show "(\<exists>p'. render_env r pr p = Inr p') \<longleftrightarrow>
        (\<forall>x. r = Inl x \<longrightarrow> is_Exception x \<and> pr = Inr ())"
    by (rule render_env_returns_iff)
next
  assume "\<not> is_Exception x"
  then show "render_env (Inl x) pr p = Inl x"
    by (rule render_env_propagates)
next
  assume a: "render_env (rendering w k) (printing w k) [] = Inl z
        \<and> now w (Suc k) - start < 120000000"
  then have "loop_body w e k s = Inl z"
    by (simp add: loop_body_render_raises)
  with a show "playback w e start k s = Some (Inl z)"
    by (simp add: playback_go)
next
  assume "rendering w k = Inl (Exception m) \<and> printing w k = Inr ()"
  then show "loop_body w e k s =
            loop_body (w\<lparr>rendering := (rendering w)(k := Inr ())\<rparr>) e k
              (s\<lparr>printed := printed s @ [m]\<rparr>)"
    by (blast intro: loop_body_after_caught)
next
  assume "clock_advances w
        \<and> (\<forall>k x. rendering w k = Inl x \<longrightarrow> is_Exception x \<and> printing w k = Inr ())
        \<and> (\<forall>k g. \<not> isl (select_action w k g)) \<and> (\<forall>k a. \<not> isl (screen w k a))"
  then show "\<exists>n s. notebook w = Some (Inr (n, s)) \<and> printed s = printed_after w n"
    by (blast intro: notebook_completes)
qed

theorem render_env_catches_Exception_witness:
  "render_env (Inr ()) (Inr ()) [] = Inr []
   \<and> render_env (Inl (Exception ''no display'')) (Inr ()) [] = Inr ([] @ [''no display''])
   \<and> render_env (Inl (Exception ''no display'')) (Inl (Exception ''TypeError'')) []
       = Inl (Exception ''TypeError'')
   \<and> render_env (Inl SystemExit) (Inr ()) [] = Inl SystemExit
   \<and> playback unprintable_world 1 0 0 \<lparr>store = [], printed = [], calls = []\<rparr>
       = Some (Inl (Exception ''TypeError''))
   \<and> (\<exists>n s. notebook no_display_world = Some (Inr (n, s))
          \<and> printed s = printed_after no_display_world n)"
proof -
  note t = render_env_catches_Exception[where pr = "Inr ()" and p = "[]"
      and m = "''no display''" and y = "Exception ''TypeError''" and x = SystemExit
      and w = unprintable_world and k = 0 and z = "Exception ''TypeError''"
      and start = 0 and e = 1 and s = "\<lparr>store = [], printed = [], calls = []\<rparr>"]
  note v = render_env_catches_Exception[where w = no_display_world,
      THEN conjunct2, THEN conjunct2, THEN conjunct2, THEN conjunct2, THEN conjunct2,
      THEN conjunct2, THEN conjunct2]
  note u = t[THEN conjunct2, THEN conjunct2, THEN conjunct2]
  have a: "render_env (Inr ()) (Inr ()) [] = Inr []"
    by (rule t[THEN conjunct1])
  have b: "render_env (Inl (Exception ''no display'')) (Inr ()) [] = Inr ([] @ [''no display''])"
    by (rule t[THEN conjunct2, THEN conjunct1])
  have c: "render_env (Inl (Exception ''no display'')) (Inl (Exception ''TypeError'')) []
       = Inl (Exception ''TypeError'')"
    by (rule t[THEN conjunct2, THEN conjunct2, THEN conjunct1])
  have "\<not> is_Exception SystemExit"
    by (simp add: is_Exception_def)
  with u[THEN conjunct1]
  have d: "render_env (Inl SystemExit) (Inr ()) [] = Inl SystemExit" by (rule mp)
  have "render_env (rendering unprintable_world 0) (printing unprintable_world 0) []
          = Inl (Exception ''TypeError'')
        \<and> now unprintable_world (Suc 0) - 0 < 120000000"
    by (simp add: unprintable_world_def demo_world_def render_env_def)
  with u[THEN conjunct2, THEN conjunct2, THEN conjunct1]
  have e: "playback unprintable_world 1 0 0 \<lparr>store = [], printed = [], calls = []\<rparr>
       = Some (Inl (Exception ''TypeError''))" by (rule mp)
  have "clock_advances no_display_world
        \<and> (\<forall>k x. rendering no_display_world k = Inl x \<longrightarrow>
               is_Exception x \<and> printing no_display_world k = Inr ())
        \<and> (\<forall>k g. \<not> isl (select_action no_display_world k g))
        \<and> (\<forall>k a. \<not> isl (screen no_display_world k a))"
    using no_display_clock by (simp add: no_display_world_def demo_world_def is_Exception_def)
  with v
  have f: "\<exists>n s. notebook no_display_world = Some (Inr (n, s))
          \<and> printed s = printed_after no_display_world n" by (rule mp)
  from a b c d e f show ?thesis by (intro conjI)
qed

end
